theory Spec2Isabelle
  imports Main "HOL-Library.Sublist" "HOL-Library.AList"
begin

text \<open>
  A shallow embedding of \<^verbatim>\<open>createEnv\<close> of next-env-safe. The sources hold the
  function twice. The first copy puts the field \<^verbatim>\<open>client\<close> into the target before
  freezing it; it is modelled as \<open>createEnv\<close> and all results below are about it unless
  they say otherwise. The second copy, the one with documentation comments, assigns the
  field through the proxy after freezing; it is modelled as \<open>createEnv_second\<close>.
\<close>

section \<open>Strings and template literals\<close>

text \<open>
  The messages of the source are template literals. They are modelled as character
  lists; the single quote and the line feed are named here.
\<close>

definition squote :: string where
  "squote = [CHR 0x27]"

definition newline :: string where
  "newline = [CHR 0x0A]"

text \<open>\<^verbatim>\<open>Array.prototype.join\<close>: the elements separated by \<open>sep\<close>.\<close>

fun join :: "string \<Rightarrow> string list \<Rightarrow> string" where
  "join sep [] = []"
| "join sep [x] = x"
| "join sep (x # y # ys) = x @ sep @ join sep (y # ys)"

text \<open>\<^verbatim>\<open>String(n)\<close> for an array index \<open>n\<close>: its decimal digits.\<close>

definition digit_char :: "nat \<Rightarrow> char" where
  "digit_char d = ''0123456789'' ! d"

fun show_nat :: "nat \<Rightarrow> string" where
  "show_nat n = (if n < 10 then [digit_char n] else show_nat (n div 10) @ [digit_char (n mod 10)])"

declare show_nat.simps [simp del]

section \<open>Objects, property reads and writes\<close>

text \<open>
  Objects live in a store: an address is an index into the list of allocated objects.
  An object has its own properties and the flag set by \<^verbatim>\<open>Object.freeze\<close>. All
  objects of the program are plain objects, whose prototype is \<^verbatim>\<open>Object.prototype\<close>.
\<close>

type_synonym addr = nat

datatype 'v jsval =
    Undefined
  | Data 'v
  | Ref addr
  | Inherited string

record 'v jsobj =
  props :: "string \<rightharpoonup> 'v jsval"
  frozen :: bool

type_synonym 'v heap = "'v jsobj list"

text \<open>A property key is a string or a symbol.\<close>

datatype prop_key = PString string | PSymbol string

text \<open>
  The exceptions of the program: the two error classes of \<^verbatim>\<open>errors.ts\<close>, each with
  its message, and the \<^verbatim>\<open>TypeError\<close> of the engine for a rejected assignment, here
  with the name of the property instead of the engine's message.
\<close>

datatype env_error =
    EnvConfigError string
  | EnvValidationError string
  | TypeError string

definition alloc :: "'v heap \<Rightarrow> 'v jsobj \<Rightarrow> addr \<times> 'v heap" where
  "alloc h ob = (length h, h @ [ob])"

definition freeze :: "'v heap \<Rightarrow> addr \<Rightarrow> 'v heap" where
  "freeze h a = h[a := (h ! a)\<lparr>frozen := True\<rparr>]"

text \<open>The string-keyed properties every plain object inherits from \<^verbatim>\<open>Object.prototype\<close>.\<close>

definition object_prototype_keys :: "string list" where
  "object_prototype_keys =
     [''constructor'', ''__defineGetter__'', ''__defineSetter__'', ''hasOwnProperty'',
      ''__lookupGetter__'', ''__lookupSetter__'', ''isPrototypeOf'', ''propertyIsEnumerable'',
      ''toString'', ''valueOf'', ''__proto__'', ''toLocaleString'']"

text \<open>
  The operator \<^verbatim>\<open>prop in obj\<close> on a plain object with the own keys \<open>own\<close>: true for an
  own property and for an inherited one.
\<close>

definition has_property :: "string list \<Rightarrow> string \<Rightarrow> bool" where
  "has_property own p = (p \<in> set own \<or> p \<in> set object_prototype_keys)"

text \<open>
  \<^verbatim>\<open>Reflect.get(target, prop, receiver)\<close> on a plain object: the own property, else the
  property inherited from \<^verbatim>\<open>Object.prototype\<close>, else \<^verbatim>\<open>undefined\<close>. No object of
  the program has a symbol-keyed property.
\<close>

fun obj_get :: "'v heap \<Rightarrow> addr \<Rightarrow> prop_key \<Rightarrow> 'v jsval" where
  "obj_get h a (PString p) =
     (case props (h ! a) p of
        Some v \<Rightarrow> v
      | None \<Rightarrow> if p \<in> set object_prototype_keys then Inherited p else Undefined)"
| "obj_get h a (PSymbol s) = Undefined"

text \<open>
  The assignment \<^verbatim>\<open>obj[p] = v\<close> in strict code (module code is strict): a frozen
  object rejects it with a \<^verbatim>\<open>TypeError\<close> and the store stays as it is.
\<close>

definition obj_set :: "'v heap \<Rightarrow> addr \<Rightarrow> string \<Rightarrow> 'v jsval \<Rightarrow> env_error + 'v heap" where
  "obj_set h a p v =
     (if frozen (h ! a) then Inl (TypeError p)
      else Inr (h[a := (h ! a)\<lparr>props := (props (h ! a))(p \<mapsto> v)\<rparr>]))"

section \<open>Schema groups and the validation library\<close>

text \<open>
  A validation rule is supplied by the caller (a \<^verbatim>\<open>z.ZodTypeAny\<close>). It receives the
  value of the variable in the runtime environment, a string or \<^verbatim>\<open>undefined\<close>, and
  either accepts it with an output value (possibly \<^verbatim>\<open>undefined\<close>) or rejects it with at
  least one issue. An issue has a path below the field and a message.
\<close>

datatype seg = Key string | Index nat

record issue =
  path :: "seg list"
  message :: string

datatype 'v parsed = Valid "'v option" | Invalid issue "issue list"

type_synonym 'v rule = "string option \<Rightarrow> 'v parsed"

type_synonym 'v SchemaMap = "(string \<times> 'v rule) list"

record 'v CreateEnvConfig =
  server :: "'v SchemaMap"
  client :: "'v SchemaMap"
  runtimeEnv :: "string \<rightharpoonup> string"
  clientPrefix :: "string option"
  verbose :: "bool option"

datatype 'v safe_parse_result =
    Success "string \<rightharpoonup> 'v jsval"
  | Failure "issue list"

fun to_jsval :: "'v option \<Rightarrow> 'v jsval" where
  "to_jsval None = Undefined"
| "to_jsval (Some v) = Data v"

fun validated :: "'v parsed \<Rightarrow> 'v jsval" where
  "validated (Valid v) = to_jsval v"
| "validated (Invalid i rest) = Undefined"

fun issues_of :: "'v parsed \<Rightarrow> issue list" where
  "issues_of (Valid v) = []"
| "issues_of (Invalid i rest) = i # rest"

definition under :: "string \<Rightarrow> issue \<Rightarrow> issue" where
  "under k i = i\<lparr>path := Key k # path i\<rparr>"

definition field_issues :: "(string \<rightharpoonup> string) \<Rightarrow> string \<times> 'v rule \<Rightarrow> issue list" where
  "field_issues env kr = map (under (fst kr)) (issues_of ((snd kr) (env (fst kr))))"

definition field_value :: "(string \<rightharpoonup> string) \<Rightarrow> string \<times> 'v rule \<Rightarrow> string \<times> 'v jsval" where
  "field_value env kr = (fst kr, validated ((snd kr) (env (fst kr))))"

text \<open>
  Modelled from the spec: the object validator of the external validation library
  (\<^verbatim>\<open>z.object(shape).safeParse(data)\<close> of zod), which is not part of the repository.
  The spec describes it as a structural validator accepting exactly the declared keys
  (extra keys of the input are ignored, not errors), with a non-throwing validation that
  returns either a success with the typed data or a failure with the list of
  (field path, message) issues. Every declared field is validated against the value the
  input has under its key; the issues of all fields are collected in the order of the
  declared keys, each path starting with the key of its field. The data of a success
  binds every declared key to the output of its rule.
\<close>

definition collect_issues :: "(string \<rightharpoonup> string) \<Rightarrow> 'v SchemaMap \<Rightarrow> issue list" where
  "collect_issues env shape = concat (map (field_issues env) shape)"

definition safeParse :: "'v SchemaMap \<Rightarrow> (string \<rightharpoonup> string) \<Rightarrow> 'v safe_parse_result" where
  "safeParse shape env =
     (let found = collect_issues env shape
      in if found = [] then Success (map_of (map (field_value env) shape))
         else Failure found)"

section \<open>The environment builder\<close>

definition DEFAULT_PREFIX :: string where
  "DEFAULT_PREFIX = ''NEXT_PUBLIC_''"

text \<open>
  A schema group is the list of its own entries in the order of \<^verbatim>\<open>Object.keys\<close>.
  The assignment \<^verbatim>\<open>shape[k] = v\<close> on the plain object \<^verbatim>\<open>shape\<close> stores the field,
  replacing the value of a key that is there already. For the key \<^verbatim>\<open>__proto__\<close> it
  runs the setter inherited from \<^verbatim>\<open>Object.prototype\<close> instead: the prototype of the
  shape is replaced and no field is added.
\<close>

definition assign_field :: "'v SchemaMap \<Rightarrow> string \<times> 'v rule \<Rightarrow> 'v SchemaMap" where
  "assign_field shape kv =
     (if fst kv = ''__proto__'' then shape else AList.update (fst kv) (snd kv) shape)"

text \<open>
  \<^verbatim>\<open>makeObjectSchema\<close> copies the entries of the group into a fresh shape by
  assignment, in the order of \<^verbatim>\<open>Object.entries\<close>, and hands the shape to
  \<^verbatim>\<open>z.object\<close>, which reads the own keys of the shape and is modelled by the list of
  its fields. An entry of the group under the key \<^verbatim>\<open>__proto__\<close> therefore never
  becomes a field of the schema.
\<close>

definition makeObjectSchema :: "'v SchemaMap \<Rightarrow> 'v SchemaMap" where
  "makeObjectSchema m = foldl assign_field [] m"

definition prefixOk :: "string \<Rightarrow> string \<Rightarrow> bool" where
  "prefixOk key pre = prefix pre key"

definition server_key_message :: "string \<Rightarrow> string \<Rightarrow> string" where
  \<open>server_key_message key pre =
     ''Server key "'' @ key @ ''" must NOT start with client prefix "'' @ pre @ ''".''\<close>

definition client_key_message :: "string \<Rightarrow> string \<Rightarrow> string" where
  \<open>client_key_message key pre =
     ''Client key "'' @ key @ ''" must start with client prefix "'' @ pre @ ''".''\<close>

fun check_server_keys :: "string list \<Rightarrow> string \<Rightarrow> env_error option" where
  "check_server_keys [] pre = None"
| "check_server_keys (key # keys) pre =
     (if prefixOk key pre then Some (EnvConfigError (server_key_message key pre))
      else check_server_keys keys pre)"

fun check_client_keys :: "string list \<Rightarrow> string \<Rightarrow> env_error option" where
  "check_client_keys [] pre = None"
| "check_client_keys (key # keys) pre =
     (if \<not> prefixOk key pre then Some (EnvConfigError (client_key_message key pre))
      else check_client_keys keys pre)"

fun seg_string :: "seg \<Rightarrow> string" where
  "seg_string (Key k) = k"
| "seg_string (Index n) = show_nat n"

definition issue_line :: "issue \<Rightarrow> string" where
  "issue_line i = join ''.'' (map seg_string (path i)) @ '': '' @ message i"

definition format_issues :: "issue list \<Rightarrow> string" where
  "format_issues found = join newline (map issue_line found)"

definition server_error_message :: "issue list \<Rightarrow> string" where
  "server_error_message found =
     ''Invalid SERVER env:'' @ newline @ format_issues found @ newline @ newline @
     ''Hint: Ensure required server variables exist in your runtime.''"

definition client_error_message :: "issue list \<Rightarrow> string \<Rightarrow> string" where
  "client_error_message found pre =
     ''Invalid CLIENT env:'' @ newline @ format_issues found @ newline @ newline @
     ''Hint: All client variables must be prefixed with '' @ squote @ pre @ squote @ ''.''"

text \<open>
  The execution context is the ambient test \<^verbatim>\<open>typeof window === "undefined"\<close>:
  \<open>ServerContext\<close> when there is no global \<^verbatim>\<open>window\<close>, \<open>BrowserContext\<close> when there is.
\<close>

datatype exec_context = ServerContext | BrowserContext

text \<open>
  The proxy returned by \<^verbatim>\<open>createEnv\<close>: its target and what the \<^verbatim>\<open>get\<close> trap
  captures, the flag \<^verbatim>\<open>isServer\<close> and the own keys of the \<^verbatim>\<open>server\<close> group.
\<close>

record proxy =
  target :: addr
  handler_isServer :: bool
  handler_server :: "string list"

text \<open>
  What \<^verbatim>\<open>console.warn\<close> receives in verbose mode: the missing server keys and the
  missing client keys. A successful call yields the proxy, the warnings written and the
  store with the objects it allocated.
\<close>

type_synonym warning = "string list \<times> string list"

record 'v created =
  guarded :: proxy
  console :: "warning list"
  heap_after :: "'v heap"

text \<open>
  The keys that read as \<^verbatim>\<open>undefined\<close> from the target, for the warning of the
  verbose mode.
\<close>

definition missing_keys :: "'v heap \<Rightarrow> addr \<Rightarrow> string list \<Rightarrow> string list" where
  "missing_keys h t keys = filter (\<lambda>k. obj_get h t (PString k) = Undefined) keys"

text \<open>The destructuring default \<^verbatim>\<open>clientPrefix = DEFAULT_PREFIX\<close>.\<close>

definition prefix_of :: "'v CreateEnvConfig \<Rightarrow> string" where
  "prefix_of config = (case clientPrefix config of None \<Rightarrow> DEFAULT_PREFIX | Some p \<Rightarrow> p)"

text \<open>
  The first copy of \<^verbatim>\<open>createEnv\<close>, in the order of the source: the two prefix loops,
  the two shapes, the context test, the two parses (the server parse replaced by an empty
  success in the browser), the two failure reports (\<^verbatim>\<open>isError\<close> is the case
  \<open>Failure\<close>), the target built by the two spreads and the field \<^verbatim>\<open>client\<close>, which
  is the data object of the client parse itself, the warning of the verbose mode,
  \<^verbatim>\<open>Object.freeze\<close> on the target, and the proxy.
\<close>

definition createEnv :: "exec_context \<Rightarrow> 'v heap \<Rightarrow> 'v CreateEnvConfig \<Rightarrow> env_error + 'v created" where
  "createEnv ctx h config =
     (let pre = prefix_of config in
      case check_server_keys (map fst (server config)) pre of
        Some e \<Rightarrow> Inl e
      | None \<Rightarrow>
     (case check_client_keys (map fst (client config)) pre of
        Some e \<Rightarrow> Inl e
      | None \<Rightarrow>
     (let serverSchema = makeObjectSchema (server config);
          clientSchema = makeObjectSchema (client config);
          isServer = (ctx = ServerContext);
          serverValues = (if isServer then safeParse serverSchema (runtimeEnv config)
                          else Success Map.empty);
          clientValues = safeParse clientSchema (runtimeEnv config)
      in case serverValues of
           Failure found \<Rightarrow> Inl (EnvValidationError (server_error_message found))
         | Success serverData \<Rightarrow>
        (case clientValues of
           Failure found \<Rightarrow> Inl (EnvValidationError (client_error_message found pre))
         | Success clientData \<Rightarrow>
        (let (clientAddr, h1) = alloc h \<lparr>props = clientData, frozen = False\<rparr>;
             (targetAddr, h2) =
                alloc h1 \<lparr>props = ((if isServer then serverData else Map.empty) ++ clientData)
                                    (''client'' \<mapsto> Ref clientAddr),
                          frozen = False\<rparr>;
             missingServer = missing_keys h2 targetAddr (map fst (server config));
             missingClient = missing_keys h2 targetAddr (map fst (client config));
             warned = (if verbose config = Some True \<and> isServer
                          \<and> (0 < length missingServer \<or> 0 < length missingClient)
                       then [(missingServer, missingClient)] else []);
             h3 = freeze h2 targetAddr
         in Inr \<lparr>guarded = \<lparr>target = targetAddr, handler_isServer = isServer,
                              handler_server = map fst (server config)\<rparr>,
                  console = warned, heap_after = h3\<rparr>)))))"

definition guard_message :: "string \<Rightarrow> string" where
  \<open>guard_message p =
     ''Attempted to access server env key "'' @ p @ ''" from the client. Use env.client instead.''\<close>

text \<open>A property read on the proxy: the \<^verbatim>\<open>get\<close> trap.\<close>

fun proxy_get :: "'v heap \<Rightarrow> proxy \<Rightarrow> prop_key \<Rightarrow> env_error + 'v jsval" where
  "proxy_get h g (PString p) =
     (if \<not> handler_isServer g \<and> has_property (handler_server g) p
      then Inl (EnvConfigError (guard_message p))
      else Inr (obj_get h (target g) (PString p)))"
| "proxy_get h g (PSymbol s) = Inr (obj_get h (target g) (PSymbol s))"

text \<open>
  An assignment through the proxy: there is no \<^verbatim>\<open>set\<close> trap, so it is forwarded to
  the target.
\<close>

definition proxy_set :: "'v heap \<Rightarrow> proxy \<Rightarrow> string \<Rightarrow> 'v jsval \<Rightarrow> env_error + 'v heap" where
  "proxy_set h g p v = obj_set h (target g) p v"

section \<open>The second copy of the builder\<close>

text \<open>
  The second copy differs from the first in the hints of its validation messages and in
  how it finishes: it merges and freezes the values without the field \<^verbatim>\<open>client\<close>,
  freezes a fresh copy of the client values, wraps the frozen merge in the proxy and then
  runs \<^verbatim>\<open>guarded.client = frozenClient\<close>. The warning is written before that
  assignment, so the console is returned beside the outcome.
\<close>

definition server_error_message_second :: "issue list \<Rightarrow> string" where
  "server_error_message_second found =
     ''Invalid SERVER env:'' @ newline @ format_issues found @ newline @ newline @
     ''Hint: Ensure required server variables exist in your runtime (e.g., .env).''"

definition client_error_message_second :: "issue list \<Rightarrow> string" where
  "client_error_message_second found =
     ''Invalid CLIENT env:'' @ newline @ format_issues found @ newline @ newline @
     ''Hint: NEXT_PUBLIC_* variables must be defined for the browser bundle.''"

definition createEnv_second ::
  "exec_context \<Rightarrow> 'v heap \<Rightarrow> 'v CreateEnvConfig \<Rightarrow> warning list \<times> (env_error + 'v created)" where
  "createEnv_second ctx h config =
     (let pre = prefix_of config in
      case check_server_keys (map fst (server config)) pre of
        Some e \<Rightarrow> ([], Inl e)
      | None \<Rightarrow>
     (case check_client_keys (map fst (client config)) pre of
        Some e \<Rightarrow> ([], Inl e)
      | None \<Rightarrow>
     (let serverSchema = makeObjectSchema (server config);
          clientSchema = makeObjectSchema (client config);
          isServer = (ctx = ServerContext);
          serverValues = (if isServer then safeParse serverSchema (runtimeEnv config)
                          else Success Map.empty);
          clientValues = safeParse clientSchema (runtimeEnv config)
      in case serverValues of
           Failure found \<Rightarrow> ([], Inl (EnvValidationError (server_error_message_second found)))
         | Success serverData \<Rightarrow>
        (case clientValues of
           Failure found \<Rightarrow> ([], Inl (EnvValidationError (client_error_message_second found)))
         | Success clientData \<Rightarrow>
        (let (mergedAddr, h1) =
                alloc h \<lparr>props = (if isServer then serverData else Map.empty) ++ clientData,
                         frozen = False\<rparr>;
             missingServer = missing_keys h1 mergedAddr (map fst (server config));
             missingClient = missing_keys h1 mergedAddr (map fst (client config));
             warned = (if verbose config = Some True \<and> isServer
                          \<and> (0 < length missingServer \<or> 0 < length missingClient)
                       then [(missingServer, missingClient)] else []);
             h2 = freeze h1 mergedAddr;
             (clientAddr, h3) = alloc h2 \<lparr>props = clientData, frozen = False\<rparr>;
             h4 = freeze h3 clientAddr;
             guard = \<lparr>target = mergedAddr, handler_isServer = isServer,
                      handler_server = map fst (server config)\<rparr>
         in case proxy_set h4 guard ''client'' (Ref clientAddr) of
              Inl e \<Rightarrow> (warned, Inl e)
            | Inr h5 \<Rightarrow> (warned, Inr \<lparr>guarded = guard, console = warned, heap_after = h5\<rparr>))))))"

section \<open>Reading and writing the result\<close>

text \<open>The own properties of the frozen target behind the proxy.\<close>

definition target_props :: "'v created \<Rightarrow> (string \<rightharpoonup> 'v jsval)" where
  "target_props r = props (heap_after r ! target (guarded r))"

text \<open>The own properties of the object stored under the field \<^verbatim>\<open>client\<close> of the target.\<close>

definition client_props :: "'v created \<Rightarrow> (string \<rightharpoonup> 'v jsval) option" where
  "client_props r =
     (case target_props r ''client'' of
        Some (Ref a) \<Rightarrow> Some (props (heap_after r ! a))
      | _ \<Rightarrow> None)"

text \<open>The expression \<^verbatim>\<open>createEnv(config)[prop]\<close>: build, then read through the proxy.\<close>

definition env_read :: "env_error + 'v created \<Rightarrow> prop_key \<Rightarrow> env_error + 'v jsval" where
  "env_read res prop =
     (case res of Inl e \<Rightarrow> Inl e | Inr r \<Rightarrow> proxy_get (heap_after r) (guarded r) prop)"

text \<open>The own property \<open>k\<close> of the target of \<^verbatim>\<open>createEnv(config)\<close>, if it has one.\<close>

definition own_entry :: "env_error + 'v created \<Rightarrow> string \<Rightarrow> env_error + 'v jsval option" where
  "own_entry res k = (case res of Inl e \<Rightarrow> Inl e | Inr r \<Rightarrow> Inr (target_props r k))"

text \<open>The expression \<^verbatim>\<open>env.client[p]\<close> on a result.\<close>

definition client_read :: "'v created \<Rightarrow> string \<Rightarrow> env_error + 'v jsval" where
  "client_read r p =
     (case proxy_get (heap_after r) (guarded r) (PString ''client'') of
        Inl e \<Rightarrow> Inl e
      | Inr (Ref a) \<Rightarrow> Inr (obj_get (heap_after r) a (PString p))
      | Inr _ \<Rightarrow> Inl (TypeError p))"

text \<open>The statement \<^verbatim>\<open>env.client[p] = v\<close> on a result, in strict code.\<close>

definition client_assign :: "'v created \<Rightarrow> string \<Rightarrow> 'v jsval \<Rightarrow> env_error + 'v created" where
  "client_assign r p v =
     (case proxy_get (heap_after r) (guarded r) (PString ''client'') of
        Inl e \<Rightarrow> Inl e
      | Inr (Ref a) \<Rightarrow>
          (case obj_set (heap_after r) a p v of
             Inl e \<Rightarrow> Inl e
           | Inr h' \<Rightarrow> Inr (r\<lparr>heap_after := h'\<rparr>))
      | Inr _ \<Rightarrow> Inl (TypeError p))"

text \<open>
  What a result holds, without the addresses of its objects: every own property of the
  target, with the object behind a reference replaced by the properties of that object,
  together with what the guard captured and what was written to the console.
\<close>

datatype 'v view = Plain "'v jsval" | Object "string \<rightharpoonup> 'v jsval"

fun deref :: "'v heap \<Rightarrow> 'v jsval \<Rightarrow> 'v view" where
  "deref h (Ref a) = Object (props (h ! a))"
| "deref h v = Plain v"

definition env_view ::
  "'v created \<Rightarrow> (string \<rightharpoonup> 'v view) \<times> bool \<times> string list \<times> warning list" where
  "env_view r =
     (\<lambda>k. map_option (deref (heap_after r)) (target_props r k),
      handler_isServer (guarded r), handler_server (guarded r), console r)"

definition outcome_view ::
  "env_error + 'v created
     \<Rightarrow> env_error + (string \<rightharpoonup> 'v view) \<times> bool \<times> string list \<times> warning list" where
  "outcome_view res = (case res of Inl e \<Rightarrow> Inl e | Inr r \<Rightarrow> Inr (env_view r))"

section \<open>Example configurations\<close>

text \<open>A rule in the manner of \<^verbatim>\<open>z.string()\<close>: the variable must be defined.\<close>

definition required :: "string rule" where
  "required raw =
     (case raw of
        None \<Rightarrow> Invalid \<lparr>path = [], message = ''Required''\<rparr> []
      | Some s \<Rightarrow> Valid (Some s))"

definition demo_env :: "string \<rightharpoonup> string" where
  "demo_env = [''DATABASE_URL'' \<mapsto> ''postgres://db'',
               ''NEXT_PUBLIC_API_URL'' \<mapsto> ''https://api'',
               ''HOME'' \<mapsto> ''/root'']"

definition demo_config :: "string CreateEnvConfig" where
  "demo_config =
     \<lparr>server = [(''DATABASE_URL'', required)],
      client = [(''NEXT_PUBLIC_API_URL'', required)],
      runtimeEnv = demo_env, clientPrefix = None, verbose = None\<rparr>"

text \<open>A server key that carries the default client prefix.\<close>

definition misprefixed_config :: "string CreateEnvConfig" where
  "misprefixed_config =
     \<lparr>server = [(''NEXT_PUBLIC_FOO'', required)], client = [],
      runtimeEnv = Map.empty, clientPrefix = None, verbose = None\<rparr>"

text \<open>The empty string as client prefix.\<close>

definition empty_prefix_config :: "string CreateEnvConfig" where
  "empty_prefix_config =
     \<lparr>server = [(''SECRET'', required)], client = [(''ANY'', required)],
      runtimeEnv = Map.empty, clientPrefix = Some [], verbose = None\<rparr>"

text \<open>One key declared in both groups.\<close>

definition shared_key_config :: "string CreateEnvConfig" where
  "shared_key_config =
     \<lparr>server = [(''TOKEN'', required)], client = [(''TOKEN'', required)],
      runtimeEnv = Map.empty, clientPrefix = None, verbose = None\<rparr>"

text \<open>The demonstration configuration with nothing set in the runtime environment.\<close>

definition unset_config :: "string CreateEnvConfig" where
  "unset_config = demo_config\<lparr>runtimeEnv := Map.empty\<rparr>"

text \<open>A server variable that is called \<^verbatim>\<open>client\<close>.\<close>

definition client_named_config :: "string CreateEnvConfig" where
  "client_named_config =
     \<lparr>server = [(''client'', required)],
      client = [(''NEXT_PUBLIC_API_URL'', required)],
      runtimeEnv = [''client'' \<mapsto> ''acme'', ''NEXT_PUBLIC_API_URL'' \<mapsto> ''https://api''],
      clientPrefix = None, verbose = None\<rparr>"

text \<open>
  A rule that rejects every value with two issues below the field, the second inside an
  array.
\<close>

definition structured :: "string rule" where
  "structured raw =
     Invalid \<lparr>path = [Key ''host''], message = ''Invalid host''\<rparr>
             [\<lparr>path = [Key ''ports'', Index 0], message = ''Expected number''\<rparr>]"

text \<open>Two server variables and one client variable, nothing set.\<close>

definition two_unset_config :: "string CreateEnvConfig" where
  "two_unset_config =
     \<lparr>server = [(''DATABASE_URL'', required), (''API_SECRET'', structured)],
      client = [(''NEXT_PUBLIC_API_URL'', required)],
      runtimeEnv = Map.empty, clientPrefix = None, verbose = None\<rparr>"

text \<open>A server variable under the own key \<^verbatim>\<open>__proto__\<close>, not set.\<close>

definition proto_key_config :: "string CreateEnvConfig" where
  "proto_key_config =
     \<lparr>server = [(''__proto__'', required)], client = [],
      runtimeEnv = Map.empty, clientPrefix = None, verbose = None\<rparr>"

text \<open>A rule that rejects every value.\<close>

definition rejecting :: "string rule" where
  "rejecting raw = Invalid \<lparr>path = [], message = ''Rejected''\<rparr> []"

section \<open>The prefix checks\<close>

lemma check_server_keys_None:
  "check_server_keys keys pre = None \<longleftrightarrow> (\<forall>k\<in>set keys. \<not> prefixOk k pre)"
  by (induction keys) auto

lemma check_client_keys_None:
  "check_client_keys keys pre = None \<longleftrightarrow> (\<forall>k\<in>set keys. prefixOk k pre)"
  by (induction keys) auto

lemma check_server_keys_Some:
  "check_server_keys keys pre = Some e \<Longrightarrow>
     \<exists>k\<in>set keys. prefixOk k pre \<and> e = EnvConfigError (server_key_message k pre)"
  by (induction keys) (auto split: if_splits)

lemma check_client_keys_Some:
  "check_client_keys keys pre = Some e \<Longrightarrow>
     \<exists>k\<in>set keys. \<not> prefixOk k pre \<and> e = EnvConfigError (client_key_message k pre)"
  by (induction keys) (auto split: if_splits)

lemma createEnv_server_key_error:
  "check_server_keys (map fst (server cfg)) (prefix_of cfg) = Some e \<Longrightarrow>
     createEnv ctx h cfg = Inl e"
  by (simp add: createEnv_def)

lemma createEnv_client_key_error:
  "check_server_keys (map fst (server cfg)) (prefix_of cfg) = None \<Longrightarrow>
   check_client_keys (map fst (client cfg)) (prefix_of cfg) = Some e \<Longrightarrow>
     createEnv ctx h cfg = Inl e"
  by (simp add: createEnv_def)

lemma prefix_violation_config_error:
  assumes "(\<exists>k\<in>set (map fst (server cfg)). prefixOk k (prefix_of cfg))
           \<or> (\<exists>k\<in>set (map fst (client cfg)). \<not> prefixOk k (prefix_of cfg))"
  shows "\<exists>e msg. e = EnvConfigError msg \<and>
           (check_server_keys (map fst (server cfg)) (prefix_of cfg) = Some e
            \<or> check_server_keys (map fst (server cfg)) (prefix_of cfg) = None
              \<and> check_client_keys (map fst (client cfg)) (prefix_of cfg) = Some e)"
proof (cases "check_server_keys (map fst (server cfg)) (prefix_of cfg)")
  case (Some e)
  then show ?thesis using check_server_keys_Some[OF Some] by auto
next
  case None
  then have "\<forall>k\<in>set (map fst (server cfg)). \<not> prefixOk k (prefix_of cfg)"
    by (simp only: check_server_keys_None)
  with assms have "\<exists>k\<in>set (map fst (client cfg)). \<not> prefixOk k (prefix_of cfg)" by blast
  then have "check_client_keys (map fst (client cfg)) (prefix_of cfg) \<noteq> None"
    by (simp only: check_client_keys_None) blast
  then obtain e where e: "check_client_keys (map fst (client cfg)) (prefix_of cfg) = Some e"
    by auto
  from check_client_keys_Some[OF e] None e show ?thesis by auto
qed

text \<open>
  Claim C2. If some server key starts with the client prefix, or some client key does not,
  \<^verbatim>\<open>createEnv\<close> fails with a configuration error. The check runs in both execution
  contexts and before any value is parsed: the same error comes out in any context, from
  any store, for any runtime environment and any validation rules under the same keys.
\<close>

theorem prefix_check_precedes_parsing:
  assumes "(\<exists>k\<in>set (map fst (server cfg)). prefixOk k (prefix_of cfg))
           \<or> (\<exists>k\<in>set (map fst (client cfg)). \<not> prefixOk k (prefix_of cfg))"
      and "map fst (server cfg') = map fst (server cfg)"
      and "map fst (client cfg') = map fst (client cfg)"
      and "clientPrefix cfg' = clientPrefix cfg"
  shows "\<exists>msg. createEnv ctx h cfg = Inl (EnvConfigError msg)
             \<and> createEnv ctx' h' cfg' = Inl (EnvConfigError msg)"
proof -
  have pre: "prefix_of cfg' = prefix_of cfg" using assms(4) by (simp add: prefix_of_def)
  from prefix_violation_config_error[OF assms(1)] obtain e msg where
    e: "e = EnvConfigError msg" and
    c: "check_server_keys (map fst (server cfg)) (prefix_of cfg) = Some e
        \<or> check_server_keys (map fst (server cfg)) (prefix_of cfg) = None
          \<and> check_client_keys (map fst (client cfg)) (prefix_of cfg) = Some e" by blast
  from c have "createEnv ctx h cfg = Inl e"
    by (auto intro: createEnv_server_key_error createEnv_client_key_error)
  moreover from c have "createEnv ctx' h' cfg' = Inl e"
    using pre assms(2,3) by (auto intro: createEnv_server_key_error createEnv_client_key_error)
  ultimately show ?thesis using e by blast
qed

theorem prefix_check_precedes_parsing_witness:
  "(\<exists>k\<in>set (map fst (server misprefixed_config)). prefixOk k (prefix_of misprefixed_config))
   \<and> (\<exists>msg. createEnv ServerContext [] misprefixed_config = Inl (EnvConfigError msg)
        \<and> createEnv BrowserContext []
             (misprefixed_config\<lparr>server := [(''NEXT_PUBLIC_FOO'', \<lambda>raw. Valid raw)],
                                  runtimeEnv := demo_env\<rparr>) = Inl (EnvConfigError msg))"
  using prefix_check_precedes_parsing [of misprefixed_config
          "misprefixed_config\<lparr>server := [(''NEXT_PUBLIC_FOO'', \<lambda>raw. Valid raw)],
                              runtimeEnv := demo_env\<rparr>"
          ServerContext "[]" BrowserContext "[]"]
  by (simp add: misprefixed_config_def prefix_of_def DEFAULT_PREFIX_def prefixOk_def)

text \<open>
  Claim C9. With the empty string as client prefix and a non-empty server group,
  \<^verbatim>\<open>createEnv\<close> always fails with a configuration error, since every key starts with
  the empty prefix; every client key passes the prefix check.
\<close>

theorem empty_prefix_rejects_server_group:
  assumes "clientPrefix cfg = Some []" and "server cfg \<noteq> []"
  shows "(\<exists>msg. createEnv ctx h cfg = Inl (EnvConfigError msg))
         \<and> (\<forall>k\<in>set (map fst (client cfg)). prefixOk k (prefix_of cfg))
         \<and> check_client_keys (map fst (client cfg)) (prefix_of cfg) = None"
proof -
  have pre: "prefix_of cfg = []" using assms(1) by (simp add: prefix_of_def)
  obtain kr rest where srv: "server cfg = kr # rest"
    using assms(2) by (cases "server cfg") auto
  have "createEnv ctx h cfg = Inl (EnvConfigError (server_key_message (fst kr) []))"
    by (rule createEnv_server_key_error) (simp add: srv pre prefixOk_def)
  moreover have "\<forall>k\<in>set (map fst (client cfg)). prefixOk k (prefix_of cfg)"
    by (simp add: pre prefixOk_def)
  ultimately show ?thesis by (simp add: check_client_keys_None)
qed

theorem empty_prefix_rejects_server_group_witness:
  "clientPrefix empty_prefix_config = Some [] \<and> server empty_prefix_config \<noteq> []
   \<and> (\<exists>msg. createEnv ServerContext [] empty_prefix_config = Inl (EnvConfigError msg))
   \<and> prefixOk ''ANY'' (prefix_of empty_prefix_config)"
  using empty_prefix_rejects_server_group [of empty_prefix_config ServerContext "[]"]
  by (simp add: empty_prefix_config_def)

text \<open>
  Claim C10. The two groups of a successful construction are disjoint: when some key is
  declared in both groups, \<^verbatim>\<open>createEnv\<close> fails with a configuration error in every
  execution context, because the key cannot both start and not start with the client
  prefix.
\<close>

theorem groups_are_disjoint:
  "(k \<in> set (map fst (server cfg)) \<and> k \<in> set (map fst (client cfg))
      \<longrightarrow> (\<exists>msg. createEnv ctx h cfg = Inl (EnvConfigError msg)))
   \<and> (createEnv ctx h cfg = Inr r
      \<longrightarrow> set (map fst (server cfg)) \<inter> set (map fst (client cfg)) = {})"
proof -
  have shared: "\<exists>msg. createEnv ctx h cfg = Inl (EnvConfigError msg)"
    if "k' \<in> set (map fst (server cfg))" and "k' \<in> set (map fst (client cfg))" for k'
  proof -
    have "(\<exists>k\<in>set (map fst (server cfg)). prefixOk k (prefix_of cfg))
           \<or> (\<exists>k\<in>set (map fst (client cfg)). \<not> prefixOk k (prefix_of cfg))"
      using that by (cases "prefixOk k' (prefix_of cfg)") blast+
    from prefix_violation_config_error[OF this] show ?thesis
      by (auto dest: createEnv_server_key_error createEnv_client_key_error)
  qed
  show ?thesis
  proof (intro conjI impI)
    assume "k \<in> set (map fst (server cfg)) \<and> k \<in> set (map fst (client cfg))"
    then show "\<exists>msg. createEnv ctx h cfg = Inl (EnvConfigError msg)" using shared by blast
  next
    assume ok: "createEnv ctx h cfg = Inr r"
    show "set (map fst (server cfg)) \<inter> set (map fst (client cfg)) = {}"
    proof (rule ccontr)
      assume "set (map fst (server cfg)) \<inter> set (map fst (client cfg)) \<noteq> {}"
      then obtain k' where "k' \<in> set (map fst (server cfg))" "k' \<in> set (map fst (client cfg))" by blast
      from shared[OF this] ok show False by auto
    qed
  qed
qed

section \<open>Shapes and parsing\<close>

lemma update_fresh:
  "k \<notin> fst ` set acc \<Longrightarrow> AList.update k v acc = acc @ [(k, v)]"
  by (induction acc) auto

lemma foldl_assign_distinct:
  "distinct (map fst (acc @ m)) \<Longrightarrow> ''__proto__'' \<notin> set (map fst m) \<Longrightarrow>
   foldl assign_field acc m = acc @ m"
proof (induction m arbitrary: acc)
  case Nil
  then show ?case by simp
next
  case (Cons kv m)
  have fresh: "fst kv \<notin> fst ` set acc" using Cons.prems(1) by auto
  have plain: "fst kv \<noteq> ''__proto__''" using Cons.prems(2) by auto
  have "distinct (map fst ((acc @ [kv]) @ m))" using Cons.prems(1) by simp
  moreover have "''__proto__'' \<notin> set (map fst m)" using Cons.prems(2) by simp
  ultimately have "foldl assign_field (acc @ [kv]) m = (acc @ [kv]) @ m" by (rule Cons.IH)
  moreover have "assign_field acc kv = acc @ [kv]"
    using fresh plain by (simp add: assign_field_def update_fresh)
  ultimately show ?case by simp
qed

text \<open>
  On a group with unique keys, none of them \<^verbatim>\<open>__proto__\<close>, the schema has the entries
  of the group.
\<close>

lemma makeObjectSchema_distinct:
  "distinct (map fst m) \<Longrightarrow> ''__proto__'' \<notin> set (map fst m) \<Longrightarrow> makeObjectSchema m = m"
  using foldl_assign_distinct[of "[]" m] by (simp add: makeObjectSchema_def)

lemma keys_foldl_assign:
  "fst ` set (foldl assign_field acc m)
     = fst ` set acc \<union> (fst ` set m - {''__proto__''})"
  by (induction m arbitrary: acc) (auto simp: assign_field_def dom_update)

lemma keys_makeObjectSchema:
  "fst ` set (makeObjectSchema m) = fst ` set m - {''__proto__''}"
  by (simp add: makeObjectSchema_def keys_foldl_assign)

text \<open>An entry under the key \<^verbatim>\<open>__proto__\<close> is lost on the way to the schema.\<close>

lemma makeObjectSchema_drops_proto:
  "''__proto__'' \<notin> fst ` set (makeObjectSchema m)"
  by (simp add: keys_makeObjectSchema)

lemma safeParse_cases:
  "safeParse shape env = (if collect_issues env shape = [] then Success (map_of (map (field_value env) shape)) else Failure (collect_issues env shape))"
  by (simp add: safeParse_def Let_def)

lemma collect_issues_empty:
  "collect_issues env shape = [] \<longleftrightarrow> (\<forall>kr\<in>set shape. issues_of (snd kr (env (fst kr))) = [])"
  by (auto simp: collect_issues_def field_issues_def)

lemma map_of_field_value:
  "map_of (map (field_value env) shape) k = map_option (\<lambda>r. validated (r (env k))) (map_of shape k)"
  by (induction shape) (auto simp: field_value_def)

lemma dom_parsed: "dom (map_of (map (field_value env) shape)) = fst ` set shape"
  by (force simp: dom_map_of_conv_image_fst field_value_def)

lemma safeParse_Success_D:
  "safeParse shape env = Success d \<Longrightarrow>
     d = map_of (map (field_value env) shape) \<and> collect_issues env shape = []"
  by (simp add: safeParse_cases split: if_splits)


lemma validated_not_ref: "validated p \<noteq> Ref a"
  by (cases p rule: validated.cases) (auto elim: to_jsval.elims)

lemma parsed_not_ref:
  "map_of (map (field_value env) shape) k = Some v \<Longrightarrow> v \<noteq> Ref a"
  by (auto simp: map_of_field_value validated_not_ref)

lemma deref_plain: "(\<And>a. v \<noteq> Ref a) \<Longrightarrow> deref h v = Plain v"
  by (cases v) auto

section \<open>The outcomes of the builder\<close>

lemma createEnv_validated:
  assumes "check_server_keys (map fst (server cfg)) (prefix_of cfg) = None"
      and "check_client_keys (map fst (client cfg)) (prefix_of cfg) = None"
      and "(if ctx = ServerContext then safeParse (makeObjectSchema (server cfg)) (runtimeEnv cfg)
            else Success Map.empty) = Success sd"
      and "safeParse (makeObjectSchema (client cfg)) (runtimeEnv cfg) = Success cd"
  shows "createEnv ctx h cfg =
     Inr \<lparr>guarded = \<lparr>target = Suc (length h), handler_isServer = (ctx = ServerContext),
                     handler_server = map fst (server cfg)\<rparr>,
          console =
            (let h2 = h @ [\<lparr>props = cd, frozen = False\<rparr>,
                           \<lparr>props = (sd ++ cd)(''client'' \<mapsto> Ref (length h)), frozen = False\<rparr>];
                 missingServer = missing_keys h2 (Suc (length h)) (map fst (server cfg));
                 missingClient = missing_keys h2 (Suc (length h)) (map fst (client cfg))
             in if verbose cfg = Some True \<and> ctx = ServerContext
                     \<and> (0 < length missingServer \<or> 0 < length missingClient)
                then [(missingServer, missingClient)] else []),
          heap_after = h @ [\<lparr>props = cd, frozen = False\<rparr>,
                            \<lparr>props = (sd ++ cd)(''client'' \<mapsto> Ref (length h)), frozen = True\<rparr>]\<rparr>"
proof (cases "ctx = ServerContext")
  case True
  with assms show ?thesis
    by (simp add: createEnv_def alloc_def freeze_def Let_def nth_append list_update_append)
next
  case False
  with assms have "sd = Map.empty" by simp
  with False assms show ?thesis
    by (simp add: createEnv_def alloc_def freeze_def Let_def nth_append list_update_append)
qed

lemma createEnv_server_invalid:
  assumes "check_server_keys (map fst (server cfg)) (prefix_of cfg) = None"
      and "check_client_keys (map fst (client cfg)) (prefix_of cfg) = None"
      and "safeParse (makeObjectSchema (server cfg)) (runtimeEnv cfg) = Failure found"
  shows "createEnv ServerContext h cfg = Inl (EnvValidationError (server_error_message found))"
  using assms by (simp add: createEnv_def Let_def)

lemma createEnv_client_invalid:
  assumes "check_server_keys (map fst (server cfg)) (prefix_of cfg) = None"
      and "check_client_keys (map fst (client cfg)) (prefix_of cfg) = None"
      and "(if ctx = ServerContext then safeParse (makeObjectSchema (server cfg)) (runtimeEnv cfg)
            else Success Map.empty) = Success sd"
      and "safeParse (makeObjectSchema (client cfg)) (runtimeEnv cfg) = Failure found"
  shows "createEnv ctx h cfg = Inl (EnvValidationError (client_error_message found (prefix_of cfg)))"
  using assms by (cases "ctx = ServerContext") (simp_all add: createEnv_def Let_def)

lemma createEnv_unfold:
  "createEnv ctx h cfg =
    (case check_server_keys (map fst (server cfg)) (prefix_of cfg) of
       Some e \<Rightarrow> Inl e
     | None \<Rightarrow>
    (case check_client_keys (map fst (client cfg)) (prefix_of cfg) of
       Some e \<Rightarrow> Inl e
     | None \<Rightarrow>
      if ctx = ServerContext \<and> collect_issues (runtimeEnv cfg) (makeObjectSchema (server cfg)) \<noteq> []
      then Inl (EnvValidationError (server_error_message
                  (collect_issues (runtimeEnv cfg) (makeObjectSchema (server cfg)))))
      else if collect_issues (runtimeEnv cfg) (makeObjectSchema (client cfg)) \<noteq> []
      then Inl (EnvValidationError (client_error_message
                  (collect_issues (runtimeEnv cfg) (makeObjectSchema (client cfg))) (prefix_of cfg)))
      else
        (let sd = (if ctx = ServerContext
                   then map_of (map (field_value (runtimeEnv cfg)) (makeObjectSchema (server cfg)))
                   else Map.empty);
             cd = map_of (map (field_value (runtimeEnv cfg)) (makeObjectSchema (client cfg)));
             h2 = h @ [\<lparr>props = cd, frozen = False\<rparr>,
                       \<lparr>props = (sd ++ cd)(''client'' \<mapsto> Ref (length h)), frozen = False\<rparr>];
             missingServer = missing_keys h2 (Suc (length h)) (map fst (server cfg));
             missingClient = missing_keys h2 (Suc (length h)) (map fst (client cfg))
         in Inr \<lparr>guarded = \<lparr>target = Suc (length h), handler_isServer = (ctx = ServerContext),
                              handler_server = map fst (server cfg)\<rparr>,
                  console = (if verbose cfg = Some True \<and> ctx = ServerContext
                                \<and> (0 < length missingServer \<or> 0 < length missingClient)
                             then [(missingServer, missingClient)] else []),
                  heap_after = h @ [\<lparr>props = cd, frozen = False\<rparr>,
                       \<lparr>props = (sd ++ cd)(''client'' \<mapsto> Ref (length h)), frozen = True\<rparr>]\<rparr>)))"
  by (cases ctx)
     (simp_all add: createEnv_def safeParse_cases alloc_def freeze_def Let_def nth_append
        list_update_append split: option.splits)

lemma createEnv_Inr_D:
  assumes "createEnv ctx h cfg = Inr r"
  shows "check_server_keys (map fst (server cfg)) (prefix_of cfg) = None
       \<and> check_client_keys (map fst (client cfg)) (prefix_of cfg) = None
       \<and> (\<exists>sd cd w.
            (if ctx = ServerContext then safeParse (makeObjectSchema (server cfg)) (runtimeEnv cfg)
             else Success Map.empty) = Success sd
          \<and> safeParse (makeObjectSchema (client cfg)) (runtimeEnv cfg) = Success cd
          \<and> r = \<lparr>guarded = \<lparr>target = Suc (length h), handler_isServer = (ctx = ServerContext),
                               handler_server = map fst (server cfg)\<rparr>,
                   console = w,
                   heap_after = h @ [\<lparr>props = cd, frozen = False\<rparr>,
                            \<lparr>props = (sd ++ cd)(''client'' \<mapsto> Ref (length h)), frozen = True\<rparr>]\<rparr>)"
proof -
  have s: "check_server_keys (map fst (server cfg)) (prefix_of cfg) = None"
    using assms by (cases "check_server_keys (map fst (server cfg)) (prefix_of cfg)")
                   (auto dest: createEnv_server_key_error[where ctx = ctx and h = h])
  have c: "check_client_keys (map fst (client cfg)) (prefix_of cfg) = None"
    using assms s by (cases "check_client_keys (map fst (client cfg)) (prefix_of cfg)")
                   (auto dest: createEnv_client_key_error[where ctx = ctx and h = h])
  obtain sd where sd: "(if ctx = ServerContext then safeParse (makeObjectSchema (server cfg)) (runtimeEnv cfg)
             else Success Map.empty) = Success sd"
  proof (cases "(if ctx = ServerContext then safeParse (makeObjectSchema (server cfg)) (runtimeEnv cfg)
             else Success Map.empty)")
    case (Success x)
    then show ?thesis using that by blast
  next
    case (Failure found)
    then have "ctx = ServerContext" and "safeParse (makeObjectSchema (server cfg)) (runtimeEnv cfg) = Failure found"
      by (auto split: if_splits)
    with createEnv_server_invalid[OF s c, of found h] assms show ?thesis by simp
  qed
  obtain cd where cd: "safeParse (makeObjectSchema (client cfg)) (runtimeEnv cfg) = Success cd"
  proof (cases "safeParse (makeObjectSchema (client cfg)) (runtimeEnv cfg)")
    case (Success x)
    then show ?thesis using that by blast
  next
    case (Failure found)
    with createEnv_client_invalid[OF s c sd, of found h] assms show ?thesis by simp
  qed
  from createEnv_validated[OF s c sd cd, of h] assms s c sd cd show ?thesis by auto
qed

lemma built_target_props:
  "target_props \<lparr>guarded = \<lparr>target = Suc (length h), handler_isServer = b, handler_server = ks\<rparr>,
                 console = w,
                 heap_after = h @ [c, \<lparr>props = m, frozen = f\<rparr>]\<rparr> = m"
  by (simp add: target_props_def nth_append)

lemma built_client_props:
  "client_props \<lparr>guarded = \<lparr>target = Suc (length h), handler_isServer = b, handler_server = ks\<rparr>,
                 console = w,
                 heap_after = h @ [\<lparr>props = cd, frozen = False\<rparr>,
                                   \<lparr>props = m(''client'' \<mapsto> Ref (length h)), frozen = f\<rparr>]\<rparr> = Some cd"
  by (simp add: client_props_def target_props_def nth_append)


section \<open>The example configurations, evaluated\<close>

lemmas config_defs = demo_config_def demo_env_def required_def prefix_of_def DEFAULT_PREFIX_def
  prefixOk_def makeObjectSchema_def assign_field_def collect_issues_def field_issues_def field_value_def under_def

lemma demo_browser:
  "createEnv BrowserContext [] demo_config =
     Inr \<lparr>guarded = \<lparr>target = 1, handler_isServer = False, handler_server = [''DATABASE_URL'']\<rparr>,
          console = [],
          heap_after = [\<lparr>props = [''NEXT_PUBLIC_API_URL'' \<mapsto> Data ''https://api''], frozen = False\<rparr>,
                        \<lparr>props = [''NEXT_PUBLIC_API_URL'' \<mapsto> Data ''https://api'',
                                   ''client'' \<mapsto> Ref 0], frozen = True\<rparr>]\<rparr>"
  by (simp add: createEnv_unfold config_defs Let_def)

lemma demo_server:
  "createEnv ServerContext [] demo_config =
     Inr \<lparr>guarded = \<lparr>target = 1, handler_isServer = True, handler_server = [''DATABASE_URL'']\<rparr>,
          console = [],
          heap_after = [\<lparr>props = [''NEXT_PUBLIC_API_URL'' \<mapsto> Data ''https://api''], frozen = False\<rparr>,
                        \<lparr>props = [''DATABASE_URL'' \<mapsto> Data ''postgres://db'',
                                   ''NEXT_PUBLIC_API_URL'' \<mapsto> Data ''https://api'',
                                   ''client'' \<mapsto> Ref 0], frozen = True\<rparr>]\<rparr>"
  by (simp add: createEnv_unfold config_defs Let_def)

lemma client_named_server:
  "createEnv ServerContext [] client_named_config =
     Inr \<lparr>guarded = \<lparr>target = 1, handler_isServer = True, handler_server = [''client'']\<rparr>,
          console = [],
          heap_after = [\<lparr>props = [''NEXT_PUBLIC_API_URL'' \<mapsto> Data ''https://api''], frozen = False\<rparr>,
                        \<lparr>props = [''NEXT_PUBLIC_API_URL'' \<mapsto> Data ''https://api'',
                                   ''client'' \<mapsto> Ref 0], frozen = True\<rparr>]\<rparr>"
  by (simp add: createEnv_unfold client_named_config_def config_defs Let_def fun_eq_iff)

text \<open>
  A variable declared under the key \<^verbatim>\<open>__proto__\<close> is never validated: although it is
  required and not set, construction succeeds, and the result has no property of that
  name.
\<close>

lemma proto_key_is_not_validated:
  "issues_of (required (runtimeEnv proto_key_config ''__proto__'')) \<noteq> []
   \<and> makeObjectSchema (server proto_key_config) = []
   \<and> own_entry (createEnv ServerContext [] proto_key_config) ''__proto__'' = Inr None"
  by (simp add: createEnv_unfold proto_key_config_def config_defs Let_def own_entry_def
        target_props_def)

theorem groups_are_disjoint_witness:
  "''TOKEN'' \<in> set (map fst (server shared_key_config))
   \<and> ''TOKEN'' \<in> set (map fst (client shared_key_config))
   \<and> (\<exists>msg. createEnv BrowserContext [] shared_key_config = Inl (EnvConfigError msg))
   \<and> (\<exists>r. createEnv ServerContext [] demo_config = Inr r)
   \<and> set (map fst (server demo_config)) \<inter> set (map fst (client demo_config)) = {}"
proof -
  have k: "''TOKEN'' \<in> set (map fst (server shared_key_config))
           \<and> ''TOKEN'' \<in> set (map fst (client shared_key_config))"
    by (simp add: shared_key_config_def)
  with groups_are_disjoint[of "''TOKEN''" shared_key_config BrowserContext "[]"]
  have e: "\<exists>msg. createEnv BrowserContext [] shared_key_config = Inl (EnvConfigError msg)" by blast
  obtain r where r: "createEnv ServerContext [] demo_config = Inr r" using demo_server by blast
  with groups_are_disjoint[of _ demo_config ServerContext "[]" r]
  have "set (map fst (server demo_config)) \<inter> set (map fst (client demo_config)) = {}" by blast
  with k e r show ?thesis by blast
qed

section \<open>The browser context\<close>

text \<open>
  Claim C3. In a browser execution context the server group is not validated: the outcome
  is the same whatever the server rules are, a validation error can only report the
  client group, and the target of a successful result has no own property under a server
  key (the field \<^verbatim>\<open>client\<close> apart, which holds the client sub-object): all its other
  properties are those of the client sub-object, whatever the runtime environment holds
  under the server keys.
\<close>

theorem browser_skips_server_validation:
  "(map fst srv' = map fst (server cfg)
      \<longrightarrow> createEnv BrowserContext h (cfg\<lparr>server := srv'\<rparr>) = createEnv BrowserContext h cfg)
   \<and> (createEnv BrowserContext h cfg = Inl (EnvValidationError msg)
      \<longrightarrow> collect_issues (runtimeEnv cfg) (makeObjectSchema (client cfg)) \<noteq> []
        \<and> msg = client_error_message
                   (collect_issues (runtimeEnv cfg) (makeObjectSchema (client cfg))) (prefix_of cfg))
   \<and> (createEnv BrowserContext h cfg = Inr r
      \<longrightarrow> (\<exists>m. client_props r = Some m \<and> (\<forall>k. k \<noteq> ''client'' \<longrightarrow> target_props r k = m k))
        \<and> (\<forall>k\<in>set (map fst (server cfg)). k \<noteq> ''client'' \<longrightarrow> target_props r k = None))"
proof (intro conjI impI)
  assume "map fst srv' = map fst (server cfg)"
  then show "createEnv BrowserContext h (cfg\<lparr>server := srv'\<rparr>) = createEnv BrowserContext h cfg"
    by (simp add: createEnv_unfold prefix_of_def Let_def cong: option.case_cong)
next
  assume v: "createEnv BrowserContext h cfg = Inl (EnvValidationError msg)"
  then show "collect_issues (runtimeEnv cfg) (makeObjectSchema (client cfg)) \<noteq> []"
    by (auto simp: createEnv_unfold Let_def split: option.splits if_splits
             dest: check_server_keys_Some check_client_keys_Some)
  from v show "msg = client_error_message
                   (collect_issues (runtimeEnv cfg) (makeObjectSchema (client cfg))) (prefix_of cfg)"
    by (auto simp: createEnv_unfold Let_def split: option.splits if_splits
             dest: check_server_keys_Some check_client_keys_Some)
next
  assume ok: "createEnv BrowserContext h cfg = Inr r"
  from createEnv_Inr_D[OF ok] obtain sd cd w where
    s: "check_server_keys (map fst (server cfg)) (prefix_of cfg) = None" and
    c: "check_client_keys (map fst (client cfg)) (prefix_of cfg) = None" and
    sd: "Success Map.empty = Success sd" and
    cd: "safeParse (makeObjectSchema (client cfg)) (runtimeEnv cfg) = Success cd" and
    r: "r = \<lparr>guarded = \<lparr>target = Suc (length h), handler_isServer = (BrowserContext = ServerContext),
                               handler_server = map fst (server cfg)\<rparr>,
                   console = w,
                   heap_after = h @ [\<lparr>props = cd, frozen = False\<rparr>,
                            \<lparr>props = (sd ++ cd)(''client'' \<mapsto> Ref (length h)), frozen = True\<rparr>]\<rparr>"
    by auto
  have tp: "target_props r = cd(''client'' \<mapsto> Ref (length h))"
  proof -
    from sd have "sd = Map.empty" by simp
    then show ?thesis by (simp only: r built_target_props) simp
  qed
  have cp: "client_props r = Some cd"
    by (simp only: r built_client_props)
  show "\<exists>m. client_props r = Some m \<and> (\<forall>k. k \<noteq> ''client'' \<longrightarrow> target_props r k = m k)"
    using tp cp by simp
  show "\<forall>k\<in>set (map fst (server cfg)). k \<noteq> ''client'' \<longrightarrow> target_props r k = None"
  proof (intro ballI impI)
    fix k assume k: "k \<in> set (map fst (server cfg))" and nc: "k \<noteq> ''client''"
    from s k have "\<not> prefixOk k (prefix_of cfg)" by (simp only: check_server_keys_None) blast
    moreover from c have "\<forall>k\<in>set (map fst (client cfg)). prefixOk k (prefix_of cfg)"
      by (simp only: check_client_keys_None)
    ultimately have "k \<notin> fst ` set (client cfg)" by auto
    then have "k \<notin> dom cd"
      using safeParse_Success_D[OF cd] by (simp add: dom_parsed keys_makeObjectSchema)
    then show "target_props r k = None" using tp nc by (auto simp: domIff)
  qed
qed

theorem browser_skips_server_validation_witness:
  "runtimeEnv demo_config ''DATABASE_URL'' = Some ''postgres://db''
   \<and> createEnv BrowserContext [] (demo_config\<lparr>server := [(''DATABASE_URL'', rejecting)]\<rparr>)
       = createEnv BrowserContext [] demo_config
   \<and> own_entry (createEnv BrowserContext [] demo_config) ''DATABASE_URL'' = Inr None
   \<and> own_entry (createEnv BrowserContext [] demo_config) ''NEXT_PUBLIC_API_URL''
       = Inr (Some (Data ''https://api''))"
proof -
  have "\<exists>r. createEnv BrowserContext [] demo_config = Inr r
          \<and> target_props r ''NEXT_PUBLIC_API_URL'' = Some (Data ''https://api'')"
    by (simp add: demo_browser target_props_def)
  then obtain r where r: "createEnv BrowserContext [] demo_config = Inr r"
    and pub: "target_props r ''NEXT_PUBLIC_API_URL'' = Some (Data ''https://api'')" by blast
  have keys: "map fst [(''DATABASE_URL'', rejecting)] = map fst (server demo_config)"
    by (simp add: demo_config_def)
  from browser_skips_server_validation[of "[(''DATABASE_URL'', rejecting)]" demo_config "[]" "[]" r]
       keys r
  have same: "createEnv BrowserContext [] (demo_config\<lparr>server := [(''DATABASE_URL'', rejecting)]\<rparr>)
       = createEnv BrowserContext [] demo_config"
    and none: "\<forall>k\<in>set (map fst (server demo_config)). k \<noteq> ''client'' \<longrightarrow> target_props r k = None"
    by blast+
  from none have "target_props r ''DATABASE_URL'' = None" by (simp add: demo_config_def)
  with r pub same show ?thesis by (simp add: own_entry_def demo_config_def demo_env_def)
qed

section \<open>The client sub-object\<close>



section \<open>Successful construction\<close>

text \<open>
  Claim C7, amended. With unique and correctly prefixed keys, none of them
  \<^verbatim>\<open>__proto__\<close>, and a runtime environment that every rule accepts, construction
  succeeds in either execution context. The property \<^verbatim>\<open>client\<close> of the result is
  always the reference to the client sub-object, whose own properties are the declared
  client keys with the outputs of their rules; a variable declared under the key
  \<^verbatim>\<open>client\<close> is therefore not held by the result itself. Apart from that property, the own
  properties of the result are the declared client keys and, in a server context only,
  the declared server keys, each bound to the output of its rule; a key of the runtime
  environment that is declared in neither group causes no error and is no property of the
  result.
\<close>

theorem valid_environment_builds:
  assumes ds: "distinct (map fst (server cfg))" and dc: "distinct (map fst (client cfg))"
      and ns: "''__proto__'' \<notin> set (map fst (server cfg))"
      and nc: "''__proto__'' \<notin> set (map fst (client cfg))"
      and ps: "\<forall>k\<in>set (map fst (server cfg)). \<not> prefixOk k (prefix_of cfg)"
      and pc: "\<forall>k\<in>set (map fst (client cfg)). prefixOk k (prefix_of cfg)"
      and vs: "\<forall>kr\<in>set (server cfg). issues_of (snd kr (runtimeEnv cfg (fst kr))) = []"
      and vc: "\<forall>kr\<in>set (client cfg). issues_of (snd kr (runtimeEnv cfg (fst kr))) = []"
  shows "\<exists>r. createEnv ctx h cfg = Inr r
     \<and> (\<forall>kr\<in>set (client cfg). fst kr \<noteq> ''client'' \<longrightarrow>
           target_props r (fst kr) = Some (validated (snd kr (runtimeEnv cfg (fst kr)))))
     \<and> (\<forall>kr\<in>set (server cfg). fst kr \<noteq> ''client'' \<longrightarrow>
           target_props r (fst kr) =
             (if ctx = ServerContext then Some (validated (snd kr (runtimeEnv cfg (fst kr))))
              else None))
     \<and> (\<forall>k. k \<notin> set (map fst (server cfg)) \<and> k \<notin> set (map fst (client cfg)) \<and> k \<noteq> ''client''
           \<longrightarrow> target_props r k = None)
     \<and> (\<exists>a. target_props r ''client'' = Some (Ref a)
            \<and> dom (props (heap_after r ! a)) = set (map fst (client cfg))
            \<and> (\<forall>kr\<in>set (client cfg).
                  props (heap_after r ! a) (fst kr)
                    = Some (validated (snd kr (runtimeEnv cfg (fst kr)))))
            \<and> (\<forall>kr\<in>set (server cfg) \<union> set (client cfg). fst kr = ''client'' \<longrightarrow>
                  target_props r (fst kr) \<noteq> Some (validated (snd kr (runtimeEnv cfg (fst kr))))))"
proof -
  let ?env = "runtimeEnv cfg"
  let ?sd = "(if ctx = ServerContext then map_of (map (field_value ?env) (server cfg)) else Map.empty)"
  let ?cd = "map_of (map (field_value ?env) (client cfg))"
  have ss: "makeObjectSchema (server cfg) = server cfg"
    using ds ns by (rule makeObjectSchema_distinct)
  have cs: "makeObjectSchema (client cfg) = client cfg"
    using dc nc by (rule makeObjectSchema_distinct)
  have s: "check_server_keys (map fst (server cfg)) (prefix_of cfg) = None"
    using ps by (simp only: check_server_keys_None)
  have c: "check_client_keys (map fst (client cfg)) (prefix_of cfg) = None"
    using pc by (simp only: check_client_keys_None)
  have si: "collect_issues ?env (server cfg) = []" using vs by (simp only: collect_issues_empty)
  have ci: "collect_issues ?env (client cfg) = []" using vc by (simp only: collect_issues_empty)
  have "\<exists>w. createEnv ctx h cfg =
      Inr \<lparr>guarded = \<lparr>target = Suc (length h), handler_isServer = (ctx = ServerContext),
                      handler_server = map fst (server cfg)\<rparr>,
           console = w,
           heap_after = h @ [\<lparr>props = ?cd, frozen = False\<rparr>,
                             \<lparr>props = (?sd ++ ?cd)(''client'' \<mapsto> Ref (length h)), frozen = True\<rparr>]\<rparr>"
    by (simp add: createEnv_unfold s c ss cs si ci Let_def)
  then obtain w where w: "createEnv ctx h cfg =
      Inr \<lparr>guarded = \<lparr>target = Suc (length h), handler_isServer = (ctx = ServerContext),
                      handler_server = map fst (server cfg)\<rparr>,
           console = w,
           heap_after = h @ [\<lparr>props = ?cd, frozen = False\<rparr>,
                             \<lparr>props = (?sd ++ ?cd)(''client'' \<mapsto> Ref (length h)), frozen = True\<rparr>]\<rparr>"
    by (rule exE)
  define r where "r = \<lparr>guarded = \<lparr>target = Suc (length h), handler_isServer = (ctx = ServerContext),
                      handler_server = map fst (server cfg)\<rparr>,
           console = w,
           heap_after = h @ [\<lparr>props = ?cd, frozen = False\<rparr>,
                             \<lparr>props = (?sd ++ ?cd)(''client'' \<mapsto> Ref (length h)), frozen = True\<rparr>]\<rparr>"
  have r: "createEnv ctx h cfg = Inr r" by (simp only: w r_def)
  have tp: "target_props r = (?sd ++ ?cd)(''client'' \<mapsto> Ref (length h))"
    unfolding r_def by (rule built_target_props)
  have cp: "client_props r = Some ?cd"
    unfolding r_def by (rule built_client_props)
  have hp: "props (heap_after r ! length h) = ?cd"
    unfolding r_def by (simp add: nth_append)
  have cval: "?cd (fst kr) = Some (validated (snd kr (?env (fst kr))))" if "kr \<in> set (client cfg)" for kr
  proof -
    have "map_of (client cfg) (fst kr) = Some (snd kr)" using dc that by (cases kr) simp
    then show ?thesis by (simp add: map_of_field_value)
  qed
  have sval: "map_of (map (field_value ?env) (server cfg)) (fst kr) = Some (validated (snd kr (?env (fst kr))))"
    if "kr \<in> set (server cfg)" for kr
  proof -
    have "map_of (server cfg) (fst kr) = Some (snd kr)" using ds that by (cases kr) simp
    then show ?thesis by (simp add: map_of_field_value)
  qed
  have disj: "?cd (fst kr) = None" if "kr \<in> set (server cfg)" for kr
  proof -
    from that ps have "\<not> prefixOk (fst kr) (prefix_of cfg)" by auto
    with pc have "fst kr \<notin> fst ` set (client cfg)" by auto
    then have "fst kr \<notin> dom ?cd" by (simp add: dom_parsed)
    then show ?thesis by (simp add: domIff)
  qed
  have 1: "\<forall>kr\<in>set (client cfg). fst kr \<noteq> ''client'' \<longrightarrow>
           target_props r (fst kr) = Some (validated (snd kr (?env (fst kr))))"
    using cval by (simp add: tp map_add_Some_iff)
  have 2: "\<forall>kr\<in>set (server cfg). fst kr \<noteq> ''client'' \<longrightarrow>
           target_props r (fst kr) =
             (if ctx = ServerContext then Some (validated (snd kr (?env (fst kr)))) else None)"
    using sval disj by (simp add: tp map_add_def)
  have 3: "\<forall>k. k \<notin> set (map fst (server cfg)) \<and> k \<notin> set (map fst (client cfg)) \<and> k \<noteq> ''client''
           \<longrightarrow> target_props r k = None"
  proof (intro allI impI)
    fix k assume k: "k \<notin> set (map fst (server cfg)) \<and> k \<notin> set (map fst (client cfg)) \<and> k \<noteq> ''client''"
    then have "k \<notin> dom ?cd" and "k \<notin> dom (map_of (map (field_value ?env) (server cfg)))"
      by (simp_all add: dom_parsed)
    then have "?cd k = None" and "?sd k = None" by (auto simp: domIff)
    with k show "target_props r k = None" by (simp add: tp map_add_def)
  qed
  have "dom ?cd = set (map fst (client cfg))" by (simp add: dom_parsed)
  with cval have 4: "\<exists>a. target_props r ''client'' = Some (Ref a)
            \<and> dom (props (heap_after r ! a)) = set (map fst (client cfg))
            \<and> (\<forall>kr\<in>set (client cfg).
                  props (heap_after r ! a) (fst kr) = Some (validated (snd kr (?env (fst kr)))))
            \<and> (\<forall>kr\<in>set (server cfg) \<union> set (client cfg). fst kr = ''client'' \<longrightarrow>
                  target_props r (fst kr) \<noteq> Some (validated (snd kr (?env (fst kr)))))"
    by (simp add: tp hp validated_not_ref[THEN not_sym])
  from r 1 2 3 4 show ?thesis by blast
qed

theorem valid_environment_builds_witness:
  "distinct (map fst (server demo_config)) \<and> distinct (map fst (client demo_config))
   \<and> ''__proto__'' \<notin> set (map fst (server demo_config))
   \<and> ''__proto__'' \<notin> set (map fst (client demo_config))
   \<and> check_server_keys (map fst (server demo_config)) (prefix_of demo_config) = None
   \<and> check_client_keys (map fst (client demo_config)) (prefix_of demo_config) = None
   \<and> collect_issues (runtimeEnv demo_config) (server demo_config) = []
   \<and> collect_issues (runtimeEnv demo_config) (client demo_config) = []
   \<and> (\<exists>r. createEnv ServerContext [] demo_config = Inr r
        \<and> target_props r ''DATABASE_URL'' = Some (Data ''postgres://db'')
        \<and> target_props r ''NEXT_PUBLIC_API_URL'' = Some (Data ''https://api'')
        \<and> runtimeEnv demo_config ''HOME'' = Some ''/root''
        \<and> target_props r ''HOME'' = None
        \<and> (\<exists>a. target_props r ''client'' = Some (Ref a)
               \<and> props (heap_after r ! a) ''NEXT_PUBLIC_API_URL'' = Some (Data ''https://api'')))"
proof -
  have ds: "distinct (map fst (server demo_config))" and dc: "distinct (map fst (client demo_config))"
    and ns: "''__proto__'' \<notin> set (map fst (server demo_config))"
    and nc: "''__proto__'' \<notin> set (map fst (client demo_config))"
    and ps: "\<forall>k\<in>set (map fst (server demo_config)). \<not> prefixOk k (prefix_of demo_config)"
    and pc: "\<forall>k\<in>set (map fst (client demo_config)). prefixOk k (prefix_of demo_config)"
    and vs: "\<forall>kr\<in>set (server demo_config). issues_of (snd kr (runtimeEnv demo_config (fst kr))) = []"
    and vc: "\<forall>kr\<in>set (client demo_config). issues_of (snd kr (runtimeEnv demo_config (fst kr))) = []"
    by (simp_all add: config_defs)
  from valid_environment_builds[OF ds dc ns nc ps pc vs vc, of ServerContext "[]"]
  obtain r a where r: "createEnv ServerContext [] demo_config = Inr r"
    and cl: "\<forall>kr\<in>set (client demo_config). fst kr \<noteq> ''client'' \<longrightarrow>
           target_props r (fst kr) = Some (validated (snd kr (runtimeEnv demo_config (fst kr))))"
    and sv: "\<forall>kr\<in>set (server demo_config). fst kr \<noteq> ''client'' \<longrightarrow>
           target_props r (fst kr) =
             (if ServerContext = ServerContext then Some (validated (snd kr (runtimeEnv demo_config (fst kr))))
              else None)"
    and un: "\<forall>k. k \<notin> set (map fst (server demo_config)) \<and> k \<notin> set (map fst (client demo_config)) \<and> k \<noteq> ''client''
           \<longrightarrow> target_props r k = None"
    and ca: "target_props r ''client'' = Some (Ref a)"
    and cv: "\<forall>kr\<in>set (client demo_config).
               props (heap_after r ! a) (fst kr)
                 = Some (validated (snd kr (runtimeEnv demo_config (fst kr))))"
    by blast
  from cl have "target_props r ''NEXT_PUBLIC_API_URL'' = Some (Data ''https://api'')"
    by (simp add: config_defs)
  moreover from sv have "target_props r ''DATABASE_URL'' = Some (Data ''postgres://db'')"
    by (simp add: config_defs)
  moreover from un have "target_props r ''HOME'' = None"
    by (simp add: config_defs)
  moreover have "runtimeEnv demo_config ''HOME'' = Some ''/root''" by (simp add: config_defs)
  moreover from cv have "props (heap_after r ! a) ''NEXT_PUBLIC_API_URL'' = Some (Data ''https://api'')"
    by (simp add: config_defs)
  moreover have "check_server_keys (map fst (server demo_config)) (prefix_of demo_config) = None"
    and "check_client_keys (map fst (client demo_config)) (prefix_of demo_config) = None"
    and "collect_issues (runtimeEnv demo_config) (server demo_config) = []"
    and "collect_issues (runtimeEnv demo_config) (client demo_config) = []"
    using ps pc vs vc
    by (simp_all only: check_server_keys_None check_client_keys_None collect_issues_empty)
  ultimately show ?thesis using r ds dc ns nc ca by blast
qed

text \<open>
  Claim C7 as stated fails in a browser context: the demonstration configuration is
  correctly prefixed and its runtime environment satisfies both groups, yet the result
  built in the browser has no property \<^verbatim>\<open>DATABASE_URL\<close>, and reading it throws.
\<close>

theorem browser_result_lacks_server_keys_counterexample:
  "check_server_keys (map fst (server demo_config)) (prefix_of demo_config) = None
   \<and> check_client_keys (map fst (client demo_config)) (prefix_of demo_config) = None
   \<and> collect_issues (runtimeEnv demo_config) (server demo_config) = []
   \<and> collect_issues (runtimeEnv demo_config) (client demo_config) = []
   \<and> own_entry (createEnv BrowserContext [] demo_config) ''DATABASE_URL'' = Inr None
   \<and> env_read (createEnv BrowserContext [] demo_config) (PString ''DATABASE_URL'')
       = Inl (EnvConfigError (guard_message ''DATABASE_URL''))"
  by (simp add: demo_browser own_entry_def env_read_def target_props_def has_property_def)
     (simp add: config_defs)

text \<open>
  In a server context a server variable called \<^verbatim>\<open>client\<close> is accepted, and its value is
  replaced in the result by the reference to the client sub-object.
\<close>

lemma client_field_shadows_server_key:
  "validated (required (runtimeEnv client_named_config ''client'')) = Data ''acme''
   \<and> env_read (createEnv ServerContext [] client_named_config) (PString ''client'') = Inr (Ref 0)"
  by (simp add: client_named_server env_read_def)
     (simp add: client_named_config_def required_def)

section \<open>Determinism\<close>

lemma view_built:
  assumes "\<And>k v a. m k = Some v \<Longrightarrow> v \<noteq> Ref a"
  shows "env_view \<lparr>guarded = \<lparr>target = Suc (length h), handler_isServer = b, handler_server = ks\<rparr>,
                   console = w,
                   heap_after = h @ [\<lparr>props = cd, frozen = False\<rparr>,
                                     \<lparr>props = m(''client'' \<mapsto> Ref (length h)), frozen = f\<rparr>]\<rparr>
         = ((\<lambda>k. if k = ''client'' then Some (Object cd) else map_option Plain (m k)), b, ks, w)"
proof -
  have "map_option (deref H) (m k) = map_option Plain (m k)" for k H
  proof (cases "m k")
    case None
    then show ?thesis by simp
  next
    case (Some v)
    with assms[OF Some] show ?thesis by (simp add: deref_plain)
  qed
  then show ?thesis
    by (auto simp: env_view_def target_props_def nth_append fun_eq_iff)
qed

lemma missing_keys_built:
  "missing_keys (h @ [c, \<lparr>props = m(''client'' \<mapsto> Ref a), frozen = f\<rparr>]) (Suc (length h)) keys
     = filter (\<lambda>k. k \<noteq> ''client'' \<and>
                    (case m k of Some v \<Rightarrow> v = Undefined
                               | None \<Rightarrow> k \<notin> set object_prototype_keys)) keys"
  unfolding missing_keys_def
  by (rule filter_cong) (auto simp: nth_append split: option.splits)

lemma outcome_view_createEnv:
  "outcome_view (createEnv ctx h cfg) = outcome_view (createEnv ctx [] cfg)"
proof -
  let ?sd = "(if ctx = ServerContext
                   then map_of (map (field_value (runtimeEnv cfg)) (makeObjectSchema (server cfg)))
                   else Map.empty)"
  let ?cd = "map_of (map (field_value (runtimeEnv cfg)) (makeObjectSchema (client cfg)))"
  have nr: "\<And>k v a. (?sd ++ ?cd) k = Some v \<Longrightarrow> v \<noteq> Ref a"
    by (auto simp: map_add_Some_iff split: if_splits dest: parsed_not_ref)
  have v: "env_view \<lparr>guarded = \<lparr>target = Suc (length H), handler_isServer = b, handler_server = ks\<rparr>,
                   console = w,
                   heap_after = H @ [\<lparr>props = ?cd, frozen = False\<rparr>,
                                     \<lparr>props = (?sd ++ ?cd)(''client'' \<mapsto> Ref (length H)), frozen = True\<rparr>]\<rparr>
         = ((\<lambda>k. if k = ''client'' then Some (Object ?cd) else map_option Plain ((?sd ++ ?cd) k)), b, ks, w)"
    for H :: "'a heap" and b ks w
    by (rule view_built) (rule nr)
  show ?thesis
  proof (cases "check_server_keys (map fst (server cfg)) (prefix_of cfg)")
    case (Some e)
    then show ?thesis by (simp add: createEnv_unfold)
  next
    case s: None
    show ?thesis
    proof (cases "check_client_keys (map fst (client cfg)) (prefix_of cfg)")
      case (Some e)
      with s show ?thesis by (simp add: createEnv_unfold)
    next
      case c: None
      show ?thesis
      proof (cases "ctx = ServerContext
                    \<and> collect_issues (runtimeEnv cfg) (makeObjectSchema (server cfg)) \<noteq> []")
        case True
        with s c show ?thesis by (simp add: createEnv_unfold)
      next
        case si: False
        show ?thesis
        proof (cases "collect_issues (runtimeEnv cfg) (makeObjectSchema (client cfg)) \<noteq> []")
          case True
          show ?thesis
            by (simp only: createEnv_unfold s c option.case si if_False True if_True simp_thms)
        next
          case ci: False
          show ?thesis
            by (simp only: createEnv_unfold s c si ci option.case if_False Let_def
                  missing_keys_built outcome_view_def sum.case v)
        qed
      qed
    qed
  qed
qed

text \<open>
  Claim C8. Two calls of \<^verbatim>\<open>createEnv\<close> with the same configuration in the same
  execution context end alike, whatever objects were allocated before each call: they
  throw the same error, or they return results with equal values key for key (the client
  sub-object compared by its properties, not by its address), the same guard and the same
  warning.
\<close>

theorem createEnv_deterministic:
  "outcome_view (createEnv ctx h1 cfg) = outcome_view (createEnv ctx h2 cfg)"
  using outcome_view_createEnv[of ctx h1 cfg] outcome_view_createEnv[of ctx h2 cfg] by simp

theorem createEnv_deterministic_witness:
  "outcome_view (createEnv ServerContext [] demo_config)
     = outcome_view (createEnv ServerContext [\<lparr>props = Map.empty, frozen = False\<rparr>] demo_config)
   \<and> createEnv ServerContext [] demo_config
     \<noteq> createEnv ServerContext [\<lparr>props = Map.empty, frozen = False\<rparr>] demo_config"
proof -
  have "createEnv ServerContext [] demo_config
     \<noteq> createEnv ServerContext [\<lparr>props = Map.empty, frozen = False\<rparr>] demo_config"
    by (simp add: createEnv_unfold config_defs Let_def)
  with createEnv_deterministic[of ServerContext "[]" demo_config "[\<lparr>props = Map.empty, frozen = False\<rparr>]"]
  show ?thesis by blast
qed

section \<open>Validation errors\<close>

lemma join_contains:
  "x \<in> set xs \<Longrightarrow> \<exists>ps ss. join sep xs = ps @ x @ ss"
proof (induction sep xs rule: join.induct)
  case (1 sep)
  then show ?case by simp
next
  case (2 sep y)
  then have "join sep [y] = [] @ x @ []" by simp
  then show ?case by blast
next
  case (3 sep y z zs)
  show ?case
  proof (cases "x = y")
    case True
    then have "join sep (y # z # zs) = [] @ x @ (sep @ join sep (z # zs))" by simp
    then show ?thesis by blast
  next
    case False
    with 3 obtain ps ss where "join sep (z # zs) = ps @ x @ ss" by auto
    then have "join sep (y # z # zs) = (y @ sep @ ps) @ x @ ss" by simp
    then show ?thesis by blast
  qed
qed

lemma issue_line_in_server_message:
  assumes "i \<in> set found"
  shows "sublist (issue_line i) (server_error_message found)"
proof -
  from join_contains[of "issue_line i" "map issue_line found" newline] assms
  obtain ps ss where "format_issues found = ps @ issue_line i @ ss"
    by (auto simp: format_issues_def)
  then have "server_error_message found =
      (''Invalid SERVER env:'' @ newline @ ps) @ issue_line i @
      (ss @ newline @ newline @ ''Hint: Ensure required server variables exist in your runtime.'')"
    by (simp add: server_error_message_def)
  then show ?thesis unfolding sublist_def by blast
qed

lemma issue_line_in_client_message:
  assumes "i \<in> set found"
  shows "sublist (issue_line i) (client_error_message found pre)"
proof -
  from join_contains[of "issue_line i" "map issue_line found" newline] assms
  obtain ps ss where "format_issues found = ps @ issue_line i @ ss"
    by (auto simp: format_issues_def)
  then have "client_error_message found pre =
      (''Invalid CLIENT env:'' @ newline @ ps) @ issue_line i @
      (ss @ newline @ newline @
       ''Hint: All client variables must be prefixed with '' @ squote @ pre @ squote @ ''.'')"
    by (simp add: client_error_message_def)
  then show ?thesis unfolding sublist_def by blast
qed

lemma issue_line_under:
  "issue_line (under k i) = join ''.'' (k # map seg_string (path i)) @ '': '' @ message i"
  by (simp add: issue_line_def under_def)

lemma field_issue_collected:
  "kr \<in> set shape \<Longrightarrow> i \<in> set (issues_of (snd kr (env (fst kr)))) \<Longrightarrow>
     under (fst kr) i \<in> set (collect_issues env shape)"
  by (auto simp: collect_issues_def field_issues_def)

text \<open>
  Claim C6, amended. With unique and correctly prefixed keys, none of them
  \<^verbatim>\<open>__proto__\<close>, a failing validation makes
  \<^verbatim>\<open>createEnv\<close> throw one validation error for the first failing group: for the server
  group when it fails in a server context, otherwise (in a browser context, or when the
  server group passes) for the client group. The message is the heading of the group, the
  issues of every failing field of that group in the order of the declared keys, each as
  the dotted path starting with the key, a colon and the reason, joined by line feeds, and
  the hint of the group after an empty line. The failing fields of the other group are not
  reported.
\<close>

theorem validation_report_per_group:
  assumes "distinct (map fst (server cfg))" and "distinct (map fst (client cfg))"
      and "''__proto__'' \<notin> set (map fst (server cfg))"
      and "''__proto__'' \<notin> set (map fst (client cfg))"
      and "check_server_keys (map fst (server cfg)) (prefix_of cfg) = None"
      and "check_client_keys (map fst (client cfg)) (prefix_of cfg) = None"
  shows "(ctx = ServerContext \<and> collect_issues (runtimeEnv cfg) (server cfg) \<noteq> [] \<longrightarrow>
            createEnv ctx h cfg =
              Inl (EnvValidationError
                     (server_error_message (collect_issues (runtimeEnv cfg) (server cfg))))
          \<and> (\<forall>kr\<in>set (server cfg). \<forall>i\<in>set (issues_of (snd kr (runtimeEnv cfg (fst kr)))).
                sublist (join ''.'' (fst kr # map seg_string (path i)) @ '': '' @ message i)
                        (server_error_message (collect_issues (runtimeEnv cfg) (server cfg)))))
       \<and> ((ctx = BrowserContext \<or> collect_issues (runtimeEnv cfg) (server cfg) = [])
            \<and> collect_issues (runtimeEnv cfg) (client cfg) \<noteq> [] \<longrightarrow>
            createEnv ctx h cfg =
              Inl (EnvValidationError
                     (client_error_message (collect_issues (runtimeEnv cfg) (client cfg))
                        (prefix_of cfg)))
          \<and> (\<forall>kr\<in>set (client cfg). \<forall>i\<in>set (issues_of (snd kr (runtimeEnv cfg (fst kr)))).
                sublist (join ''.'' (fst kr # map seg_string (path i)) @ '': '' @ message i)
                        (client_error_message (collect_issues (runtimeEnv cfg) (client cfg))
                           (prefix_of cfg))))"
proof -
  have ss: "makeObjectSchema (server cfg) = server cfg"
    using assms(1,3) by (rule makeObjectSchema_distinct)
  have cs: "makeObjectSchema (client cfg) = client cfg"
    using assms(2,4) by (rule makeObjectSchema_distinct)
  have lines_s: "sublist (join ''.'' (fst kr # map seg_string (path i)) @ '': '' @ message i)
                        (server_error_message (collect_issues (runtimeEnv cfg) (server cfg)))"
    if "kr \<in> set (server cfg)" and "i \<in> set (issues_of (snd kr (runtimeEnv cfg (fst kr))))" for kr i
    using issue_line_in_server_message[OF field_issue_collected[where env = "runtimeEnv cfg", OF that]]
    by (simp only: issue_line_under)
  have lines_c: "sublist (join ''.'' (fst kr # map seg_string (path i)) @ '': '' @ message i)
                        (client_error_message (collect_issues (runtimeEnv cfg) (client cfg)) (prefix_of cfg))"
    if "kr \<in> set (client cfg)" and "i \<in> set (issues_of (snd kr (runtimeEnv cfg (fst kr))))" for kr i
    using issue_line_in_client_message[OF field_issue_collected[where env = "runtimeEnv cfg", OF that]]
    by (simp only: issue_line_under)
  have srv: "createEnv ctx h cfg =
              Inl (EnvValidationError
                     (server_error_message (collect_issues (runtimeEnv cfg) (server cfg))))"
    if "ctx = ServerContext" and "collect_issues (runtimeEnv cfg) (server cfg) \<noteq> []"
    using that assms(5,6) by (simp add: createEnv_unfold ss)
  have cli: "createEnv ctx h cfg =
              Inl (EnvValidationError
                     (client_error_message (collect_issues (runtimeEnv cfg) (client cfg))
                        (prefix_of cfg)))"
    if "ctx = BrowserContext \<or> collect_issues (runtimeEnv cfg) (server cfg) = []"
      and "collect_issues (runtimeEnv cfg) (client cfg) \<noteq> []"
    using that assms(5,6) by (auto simp add: createEnv_unfold ss cs)
  from srv cli lines_s lines_c show ?thesis by blast
qed

theorem validation_report_per_group_witness:
  "distinct (map fst (server two_unset_config)) \<and> distinct (map fst (client two_unset_config))
   \<and> ''__proto__'' \<notin> set (map fst (server two_unset_config))
   \<and> ''__proto__'' \<notin> set (map fst (client two_unset_config))
   \<and> check_server_keys (map fst (server two_unset_config)) (prefix_of two_unset_config) = None
   \<and> check_client_keys (map fst (client two_unset_config)) (prefix_of two_unset_config) = None
   \<and> createEnv ServerContext [] two_unset_config =
       Inl (EnvValidationError
             (''Invalid SERVER env:'' @ newline @
              ''DATABASE_URL: Required'' @ newline @
              ''API_SECRET.host: Invalid host'' @ newline @
              ''API_SECRET.ports.0: Expected number'' @ newline @ newline @
              ''Hint: Ensure required server variables exist in your runtime.''))
   \<and> sublist ''DATABASE_URL: Required''
         (server_error_message
            (collect_issues (runtimeEnv two_unset_config) (server two_unset_config)))
   \<and> sublist ''API_SECRET.host: Invalid host''
         (server_error_message
            (collect_issues (runtimeEnv two_unset_config) (server two_unset_config)))
   \<and> sublist ''API_SECRET.ports.0: Expected number''
         (server_error_message
            (collect_issues (runtimeEnv two_unset_config) (server two_unset_config)))
   \<and> createEnv BrowserContext [] two_unset_config =
       Inl (EnvValidationError
             (''Invalid CLIENT env:'' @ newline @ ''NEXT_PUBLIC_API_URL: Required'' @ newline @ newline @
              ''Hint: All client variables must be prefixed with '' @ squote @ ''NEXT_PUBLIC_'' @ squote @ ''.''))"
proof -
  let ?cfg = two_unset_config
  have d: "distinct (map fst (server ?cfg))" "distinct (map fst (client ?cfg))"
    and n: "''__proto__'' \<notin> set (map fst (server ?cfg))" "''__proto__'' \<notin> set (map fst (client ?cfg))"
    and s: "check_server_keys (map fst (server ?cfg)) (prefix_of ?cfg) = None"
    and c: "check_client_keys (map fst (client ?cfg)) (prefix_of ?cfg) = None"
    by (simp_all add: two_unset_config_def config_defs)
  have si: "collect_issues (runtimeEnv ?cfg) (server ?cfg)
              = [\<lparr>path = [Key ''DATABASE_URL''], message = ''Required''\<rparr>,
                 \<lparr>path = [Key ''API_SECRET'', Key ''host''], message = ''Invalid host''\<rparr>,
                 \<lparr>path = [Key ''API_SECRET'', Key ''ports'', Index 0], message = ''Expected number''\<rparr>]"
    and ci: "collect_issues (runtimeEnv ?cfg) (client ?cfg)
              = [\<lparr>path = [Key ''NEXT_PUBLIC_API_URL''], message = ''Required''\<rparr>]"
    by (simp_all add: two_unset_config_def structured_def config_defs)
  have k1: "(''DATABASE_URL'', required) \<in> set (server ?cfg)"
    and i1: "\<lparr>path = [], message = ''Required''\<rparr>
              \<in> set (issues_of (required (runtimeEnv ?cfg ''DATABASE_URL'')))"
    and k2: "(''API_SECRET'', structured) \<in> set (server ?cfg)"
    and i2: "\<lparr>path = [Key ''host''], message = ''Invalid host''\<rparr>
              \<in> set (issues_of (structured (runtimeEnv ?cfg ''API_SECRET'')))"
    and i3: "\<lparr>path = [Key ''ports'', Index 0], message = ''Expected number''\<rparr>
              \<in> set (issues_of (structured (runtimeEnv ?cfg ''API_SECRET'')))"
    by (simp_all add: two_unset_config_def structured_def config_defs)
  have zero: "show_nat 0 = ''0''" by (simp add: show_nat.simps digit_char_def)
  note srv = validation_report_per_group[OF d n s c, of ServerContext "[]"]
  note cli = validation_report_per_group[OF d n s c, of BrowserContext "[]"]
  from srv si have 1: "createEnv ServerContext [] ?cfg =
       Inl (EnvValidationError
             (server_error_message (collect_issues (runtimeEnv ?cfg) (server ?cfg))))"
    by simp
  from srv si have all_lines: "\<forall>kr\<in>set (server ?cfg). \<forall>i\<in>set (issues_of (snd kr (runtimeEnv ?cfg (fst kr)))).
                sublist (join ''.'' (fst kr # map seg_string (path i)) @ '': '' @ message i)
                        (server_error_message (collect_issues (runtimeEnv ?cfg) (server ?cfg)))"
    by simp
  from all_lines k1 i1 have 2: "sublist ''DATABASE_URL: Required''
         (server_error_message (collect_issues (runtimeEnv ?cfg) (server ?cfg)))"
    by fastforce
  from all_lines k2 i2 have 3: "sublist ''API_SECRET.host: Invalid host''
         (server_error_message (collect_issues (runtimeEnv ?cfg) (server ?cfg)))"
    by fastforce
  from all_lines k2 i3 have 4: "sublist ''API_SECRET.ports.0: Expected number''
         (server_error_message (collect_issues (runtimeEnv ?cfg) (server ?cfg)))"
    by (fastforce simp: zero)
  from cli ci have 5: "createEnv BrowserContext [] ?cfg =
       Inl (EnvValidationError
             (client_error_message (collect_issues (runtimeEnv ?cfg) (client ?cfg))
                (prefix_of ?cfg)))"
    by simp
  have m1: "server_error_message (collect_issues (runtimeEnv ?cfg) (server ?cfg))
      = ''Invalid SERVER env:'' @ newline @
              ''DATABASE_URL: Required'' @ newline @
              ''API_SECRET.host: Invalid host'' @ newline @
              ''API_SECRET.ports.0: Expected number'' @ newline @ newline @
              ''Hint: Ensure required server variables exist in your runtime.''"
    by (simp add: si server_error_message_def format_issues_def issue_line_def zero)
  have m2: "client_error_message (collect_issues (runtimeEnv ?cfg) (client ?cfg)) (prefix_of ?cfg)
      = ''Invalid CLIENT env:'' @ newline @ ''NEXT_PUBLIC_API_URL: Required'' @ newline @ newline @
              ''Hint: All client variables must be prefixed with '' @ squote @ ''NEXT_PUBLIC_'' @ squote @ ''.''"
    by (simp add: ci client_error_message_def format_issues_def issue_line_def
          two_unset_config_def config_defs)
  from 1 5 have srv_msg: "createEnv ServerContext [] ?cfg =
       Inl (EnvValidationError
             (''Invalid SERVER env:'' @ newline @
              ''DATABASE_URL: Required'' @ newline @
              ''API_SECRET.host: Invalid host'' @ newline @
              ''API_SECRET.ports.0: Expected number'' @ newline @ newline @
              ''Hint: Ensure required server variables exist in your runtime.''))"
    and cli_msg: "createEnv BrowserContext [] ?cfg =
       Inl (EnvValidationError
             (''Invalid CLIENT env:'' @ newline @ ''NEXT_PUBLIC_API_URL: Required'' @ newline @ newline @
              ''Hint: All client variables must be prefixed with '' @ squote @ ''NEXT_PUBLIC_'' @ squote @ ''.''))"
    by (simp_all only: m1 m2)
  from d n s c srv_msg 2 3 4 cli_msg show ?thesis by blast
qed

text \<open>
  Claim C6 as stated fails when both groups fail in a server context: with nothing set
  in the runtime environment both \<^verbatim>\<open>DATABASE_URL\<close> and \<^verbatim>\<open>NEXT_PUBLIC_API_URL\<close> are
  rejected, and the error reports the server field only.
\<close>

theorem report_omits_client_fields_counterexample:
  "check_server_keys (map fst (server unset_config)) (prefix_of unset_config) = None
   \<and> check_client_keys (map fst (client unset_config)) (prefix_of unset_config) = None
   \<and> issues_of (required (runtimeEnv unset_config ''DATABASE_URL'')) = [\<lparr>path = [], message = ''Required''\<rparr>]
   \<and> issues_of (required (runtimeEnv unset_config ''NEXT_PUBLIC_API_URL'')) = [\<lparr>path = [], message = ''Required''\<rparr>]
   \<and> createEnv ServerContext [] unset_config =
       Inl (EnvValidationError
             (''Invalid SERVER env:'' @ newline @ ''DATABASE_URL: Required'' @ newline @ newline @
              ''Hint: Ensure required server variables exist in your runtime.''))
   \<and> \<not> sublist ''NEXT_PUBLIC_API_URL''
             (''Invalid SERVER env:'' @ newline @ ''DATABASE_URL: Required'' @ newline @ newline @
              ''Hint: Ensure required server variables exist in your runtime.'')"
proof -
  have "\<not> sublist ''NEXT_PUBLIC_API_URL''
             (''Invalid SERVER env:'' @ newline @ ''DATABASE_URL: Required'' @ newline @ newline @
              ''Hint: Ensure required server variables exist in your runtime.'')"
    unfolding newline_def by code_simp
  moreover have "createEnv ServerContext [] unset_config =
       Inl (EnvValidationError
             (''Invalid SERVER env:'' @ newline @ ''DATABASE_URL: Required'' @ newline @ newline @
              ''Hint: Ensure required server variables exist in your runtime.''))"
    by (simp add: createEnv_unfold unset_config_def config_defs Let_def server_error_message_def
          format_issues_def issue_line_def)
  ultimately show ?thesis
    by (simp add: unset_config_def config_defs)
qed

section \<open>The access guard\<close>

lemma server_key_read_throws:
  assumes "createEnv BrowserContext h cfg = Inr r" and "k \<in> set (map fst (server cfg))"
  shows "proxy_get (heap_after r) (guarded r) (PString k) = Inl (EnvConfigError (guard_message k))"
proof -
  from createEnv_Inr_D[OF assms(1)] have "handler_isServer (guarded r) = False"
    and "handler_server (guarded r) = map fst (server cfg)" by auto
  with assms(2) show ?thesis by (simp add: has_property_def)
qed

lemma other_read_passes_through:
  assumes "handler_isServer g \<or> \<not> has_property (handler_server g) p"
  shows "proxy_get h g (PString p) = Inr (obj_get h (target g) (PString p))"
  using assms by auto

text \<open>
  Claim C1 says that in a browser context a read of a declared server key throws and any
  other read passes through. The first half holds (\<open>server_key_read_throws\<close>). The second
  does not: the guard tests \<^verbatim>\<open>prop in server\<close>, which is also true for every name the
  server group inherits from \<^verbatim>\<open>Object.prototype\<close>, so that reading \<^verbatim>\<open>toString\<close> or
  \<^verbatim>\<open>constructor\<close> from a result built in the browser throws the configuration error of
  a server key.
\<close>

theorem inherited_name_read_throws:
  assumes "createEnv BrowserContext h cfg = Inr r" and "p \<in> set object_prototype_keys"
  shows "proxy_get (heap_after r) (guarded r) (PString p) = Inl (EnvConfigError (guard_message p))"
proof -
  from createEnv_Inr_D[OF assms(1)] have "handler_isServer (guarded r) = False" by auto
  with assms(2) show ?thesis by (simp add: has_property_def)
qed

theorem inherited_name_read_throws_witness:
  \<open>''toString'' \<notin> set (map fst (server demo_config))
   \<and> ''toString'' \<notin> set (map fst (client demo_config))
   \<and> env_read (createEnv BrowserContext [] demo_config) (PString ''toString'')
       = Inl (EnvConfigError
               (''Attempted to access server env key "toString" from the client. Use env.client instead.''))
   \<and> env_read (createEnv ServerContext [] demo_config) (PString ''toString'')
       = Inr (Inherited ''toString'')\<close>
proof -
  have "''toString'' \<in> set object_prototype_keys" by (simp add: object_prototype_keys_def)
  from inherited_name_read_throws[OF demo_browser this]
  have "env_read (createEnv BrowserContext [] demo_config) (PString ''toString'')
       = Inl (EnvConfigError (guard_message ''toString''))"
    by (simp add: env_read_def demo_browser)
  moreover have "env_read (createEnv ServerContext [] demo_config) (PString ''toString'')
       = Inr (Inherited ''toString'')"
    by (simp add: env_read_def demo_server object_prototype_keys_def)
  ultimately show ?thesis by (simp add: guard_message_def demo_config_def)
qed

section \<open>Immutability\<close>

text \<open>The target is frozen: every assignment through the proxy is rejected.\<close>

lemma target_is_frozen:
  assumes "createEnv ctx h cfg = Inr r"
  shows "proxy_set (heap_after r) (guarded r) p v = Inl (TypeError p)"
proof -
  from createEnv_Inr_D[OF assms] have "frozen (heap_after r ! target (guarded r))"
    by (auto simp: nth_append)
  then show ?thesis by (simp add: proxy_set_def obj_set_def)
qed

text \<open>
  Claim C4 says that the result is immutable, the client sub-object included. The client
  sub-object is the object the validation returned, stored under the field \<^verbatim>\<open>client\<close>
  as it is; only the target is frozen. Wherever the field \<^verbatim>\<open>client\<close> can be read, an
  assignment to a property of the client sub-object succeeds and is seen by later reads.
\<close>

theorem client_object_accepts_writes:
  assumes "createEnv ctx h cfg = Inr r"
      and "ctx = ServerContext \<or> ''client'' \<notin> set (map fst (server cfg))"
  shows "\<exists>r'. client_assign r p v = Inr r' \<and> client_read r' p = Inr v"
proof -
  from createEnv_Inr_D[OF assms(1)] obtain sd cd w where
    r: "r = \<lparr>guarded = \<lparr>target = Suc (length h), handler_isServer = (ctx = ServerContext),
                               handler_server = map fst (server cfg)\<rparr>,
                   console = w,
                   heap_after = h @ [\<lparr>props = cd, frozen = False\<rparr>,
                            \<lparr>props = (sd ++ cd)(''client'' \<mapsto> Ref (length h)), frozen = True\<rparr>]\<rparr>"
    by blast
  have np: "''client'' \<notin> set object_prototype_keys" by (simp add: object_prototype_keys_def)
  have readable: "handler_isServer (guarded r) \<or> \<not> has_property (handler_server (guarded r)) ''client''"
    using assms(2) np by (auto simp: r has_property_def)
  have g: "proxy_get (heap_after r) (guarded r) (PString ''client'') = Inr (Ref (length h))"
    using other_read_passes_through[OF readable, of "heap_after r"] by (simp add: r nth_append)
  let ?h' = "h @ [\<lparr>props = cd(p \<mapsto> v), frozen = False\<rparr>,
                  \<lparr>props = (sd ++ cd)(''client'' \<mapsto> Ref (length h)), frozen = True\<rparr>]"
  have set: "obj_set (heap_after r) (length h) p v = Inr ?h'"
    by (simp add: r obj_set_def nth_append list_update_append)
  have a: "client_assign r p v = Inr (r\<lparr>heap_after := ?h'\<rparr>)"
    by (simp only: client_assign_def g set sum.case jsval.case)
  have g': "proxy_get ?h' (guarded r) (PString ''client'') = Inr (Ref (length h))"
    using other_read_passes_through[OF readable, of ?h'] by (simp add: r nth_append)
  have og: "obj_get ?h' (length h) (PString p) = v"
    by (simp add: nth_append)
  have gr: "guarded (r\<lparr>heap_after := ?h'\<rparr>) = guarded r"
    and hr: "heap_after (r\<lparr>heap_after := ?h'\<rparr>) = ?h'" by simp_all
  have "client_read (r\<lparr>heap_after := ?h'\<rparr>) p = Inr v"
    by (simp only: client_read_def gr hr g' og sum.case jsval.case)
  with a show ?thesis by blast
qed

theorem client_object_accepts_writes_witness:
  "\<exists>r r'. createEnv ServerContext [] demo_config = Inr r
      \<and> client_read r ''NEXT_PUBLIC_API_URL'' = Inr (Data ''https://api'')
      \<and> client_assign r ''NEXT_PUBLIC_API_URL'' (Data ''https://evil'') = Inr r'
      \<and> client_read r' ''NEXT_PUBLIC_API_URL'' = Inr (Data ''https://evil'')"
proof -
  have "\<exists>r. createEnv ServerContext [] demo_config = Inr r
          \<and> client_read r ''NEXT_PUBLIC_API_URL'' = Inr (Data ''https://api'')"
    by (simp add: demo_server client_read_def)
  then obtain r where r: "createEnv ServerContext [] demo_config = Inr r"
    and before: "client_read r ''NEXT_PUBLIC_API_URL'' = Inr (Data ''https://api'')" by blast
  have "ServerContext = ServerContext \<or> ''client'' \<notin> set (map fst (server demo_config))" by simp
  from client_object_accepts_writes[OF r this, of "''NEXT_PUBLIC_API_URL''" "Data ''https://evil''"]
  obtain r' where "client_assign r ''NEXT_PUBLIC_API_URL'' (Data ''https://evil'') = Inr r'"
    and "client_read r' ''NEXT_PUBLIC_API_URL'' = Inr (Data ''https://evil'')" by blast
  with r before show ?thesis by blast
qed

section \<open>The second copy never returns\<close>

text \<open>
  The assignment \<^verbatim>\<open>guarded.client = frozenClient\<close> reaches the frozen target, since the
  proxy has no \<^verbatim>\<open>set\<close> trap, and is rejected: the second copy throws a
  \<^verbatim>\<open>TypeError\<close> whenever both validations succeed.
\<close>

lemma createEnv_second_never_returns:
  "snd (createEnv_second ctx h cfg) \<noteq> Inr r"
  by (cases ctx)
     (auto simp: createEnv_second_def Let_def alloc_def freeze_def proxy_set_def obj_set_def
        nth_append split: option.splits safe_parse_result.splits)

lemma createEnv_second_valid_config:
  "snd (createEnv_second ServerContext [] demo_config) = Inl (TypeError ''client'')
   \<and> snd (createEnv_second BrowserContext [] demo_config) = Inl (TypeError ''client'')"
  by (simp add: createEnv_second_def Let_def alloc_def freeze_def proxy_set_def obj_set_def
        safeParse_def config_defs)

end
